theory Spec2Isabelle
  imports Complex_Main
begin

section \<open>Data model\<close>

text \<open>
  The two dataclasses of the source. Python floats are modelled by the real numbers they
  denote: the only operation the controller performs on a score is the order comparison
  \<^verbatim>\<open>report.relevance_score > 0.3\<close>, which is exact on floats.
\<close>

record WebsiteReport =
  url :: string
  content :: string
  relevance_score :: real
  summary :: string
  relevant_info :: string

text \<open>
  \<^verbatim>\<open>findings\<close> is a Python dict, which keeps insertion order and holds one entry per key:
  an association list with distinct keys, maintained by \<open>dict_set\<close> below.
  \<^verbatim>\<open>sources\<close> is built by \<^verbatim>\<open>list(set(all_sources))\<close>; Python leaves the enumeration order of
  a set unspecified, the model enumerates it in the order of \<open>remdups\<close>.
\<close>

record ResearchReport =
  query :: string
  subcomponents :: "string list"
  findings :: "(string \<times> WebsiteReport list) list"
  final_report :: string
  timestamp :: string
  sources :: "string list"

text \<open>Exceptions that the modelled code can raise or receive from a collaborator.\<close>

datatype exn =
    APIError
  | JSONDecodeError
  | KeyError string
  | OSError

text \<open>
  The value of \<^verbatim>\<open>json.loads(tool_call.function.arguments)\<close>, restricted to the keys the
  code reads; a key that is absent from the JSON object is \<open>None\<close>. Values are assumed to
  have the JSON types that the tool schemas of \<^verbatim>\<open>_define_tools\<close> declare.
\<close>

record tool_args =
  arg_queries :: "string list option"
  arg_relevance_score :: "real option"
  arg_summary :: "string option"
  arg_relevant_info :: "string option"
  arg_subcomponents :: "string list option"
  arg_has_sufficient_info :: "bool option"
  arg_missing_info :: "string list option"

text \<open>
  One entry of \<^verbatim>\<open>response.choices[0].message.tool_calls\<close>: the function name and its
  arguments, \<open>None\<close> when the argument string is not valid JSON (\<^verbatim>\<open>json.loads\<close> raises).
\<close>

datatype tool_call = ToolCall (fn_name: string) (fn_arguments: "tool_args option")

text \<open>
  The data that each call site interpolates into its messages. The first four are sent
  through \<^verbatim>\<open>_call_openai_with_tools\<close>, the last three directly through
  \<^verbatim>\<open>client.chat.completions.create\<close> without tools.
\<close>

datatype prompt =
    GenerateQueries string "string list" "string list"
  | AnalyzeRelevance string string string
  | AssessSufficiency string "string list"
  | DecomposeQuery string
  | SectionReport string "(string \<times> string \<times> string) list"
  | ExecutiveSummary string "string list" nat "string list"
  | Conclusion string "string list" nat

text \<open>Every call that leaves the process is recorded, in order.\<close>

datatype event =
    Chat prompt
  | GoogleSearch string
  | SerpRequest string
  | Crawl string
  | Now
  | WriteFile string string

text \<open>
  The researcher object \<^verbatim>\<open>self\<close>: its two configuration fields, and the collaborators it
  reaches (language model, search library, HTTP client, crawler, clock, file system).
  A collaborator is a function of the events so far and of its input, so it may answer
  the same input differently at different times; an exception it raises is \<open>Inl\<close>.
  \<^item> \<open>chat_tools\<close>: \<^verbatim>\<open>client.chat.completions.create\<close> with tools, read at
    \<^verbatim>\<open>response.choices[0].message.tool_calls\<close> (\<open>[]\<close> for \<^verbatim>\<open>None\<close> or an empty list);
  \<^item> \<open>chat_text\<close>: the same call without tools, read at \<^verbatim>\<open>message.content\<close>;
  \<^item> \<open>googlesearch\<close>: \<^verbatim>\<open>search(query, num_results=...)\<close>, enumerated;
  \<^item> \<open>requests_get\<close>: \<^verbatim>\<open>requests.get\<close> and \<^verbatim>\<open>raise_for_status\<close>, \<open>None\<close> for a
    \<^verbatim>\<open>RequestException\<close>, else the \<^verbatim>\<open>href\<close> of each anchor that \<^verbatim>\<open>soup.select("div.g a")\<close>
    yields (\<open>None\<close> for an anchor without one);
  \<^item> \<open>crawler_arun\<close>: \<^verbatim>\<open>AsyncWebCrawler().arun\<close>, \<open>Inr None\<close> for a falsy result, else its
    markdown;
  \<^item> \<open>clock\<close>: \<^verbatim>\<open>datetime.now()\<close>, formatted;
  \<^item> \<open>open_write\<close>: opening and writing the report file, \<open>Some e\<close> when it raises.
\<close>

record CustomResearcher =
  max_loops :: int
  search_results_per_query :: int
  chat_tools :: "event list \<Rightarrow> prompt \<Rightarrow> exn + tool_call list"
  chat_text :: "event list \<Rightarrow> prompt \<Rightarrow> exn + string"
  googlesearch :: "event list \<Rightarrow> string \<Rightarrow> int \<Rightarrow> exn + string list"
  requests_get :: "event list \<Rightarrow> string \<Rightarrow> int \<Rightarrow> string option list option"
  crawler_arun :: "event list \<Rightarrow> string \<Rightarrow> exn + string option"
  clock :: "event list \<Rightarrow> string"
  open_write :: "event list \<Rightarrow> string \<Rightarrow> string \<Rightarrow> exn option"

section \<open>Crawling and searching\<close>

text \<open>\<^verbatim>\<open>_crawl_website\<close>: any exception is caught and becomes \<open>None\<close>.\<close>

definition crawl_website ::
  "CustomResearcher \<Rightarrow> event list \<Rightarrow> string \<Rightarrow> string option \<times> event list" where
  "crawl_website self evs u =
     ((case crawler_arun self evs u of Inl e \<Rightarrow> None | Inr result \<Rightarrow> result),
      evs @ [Crawl u])"

text \<open>
  The loop of \<^verbatim>\<open>_scrape_google_serp\<close> over the anchors: an anchor is kept when its
  \<^verbatim>\<open>href\<close> is non-empty and starts with \<^verbatim>\<open>http\<close>; after each anchor the loop stops once
  \<^verbatim>\<open>len(links) >= search_results_per_query\<close>.
\<close>

fun scrape_links :: "int \<Rightarrow> string option list \<Rightarrow> string list \<Rightarrow> string list" where
  "scrape_links n [] links = links"
| "scrape_links n (href # anchors) links =
     (let links' = (case href of
                      None \<Rightarrow> links
                    | Some h \<Rightarrow> if h \<noteq> [] \<and> take 4 h = ''http'' then links @ [h] else links)
      in if int (length links') \<ge> n then links' else scrape_links n anchors links')"

definition scrape_google_serp ::
  "CustomResearcher \<Rightarrow> event list \<Rightarrow> string \<Rightarrow> string list \<times> event list" where
  "scrape_google_serp self evs q =
     ((case requests_get self evs q (search_results_per_query self) of
         None \<Rightarrow> []
       | Some anchors \<Rightarrow> scrape_links (search_results_per_query self) anchors []),
      evs @ [SerpRequest q])"

text \<open>\<^verbatim>\<open>_google_search\<close>: the library first, the scrape when the library raises.\<close>

definition google_search ::
  "CustomResearcher \<Rightarrow> event list \<Rightarrow> string \<Rightarrow> string list \<times> event list" where
  "google_search self evs q =
     (case googlesearch self evs q (search_results_per_query self) of
        Inr urls \<Rightarrow> (urls, evs @ [GoogleSearch q])
      | Inl e \<Rightarrow> scrape_google_serp self (evs @ [GoogleSearch q]) q)"

section \<open>Language-model calls\<close>

definition call_openai_with_tools ::
  "CustomResearcher \<Rightarrow> event list \<Rightarrow> prompt \<Rightarrow> (exn + tool_call list) \<times> event list" where
  "call_openai_with_tools self evs p = (chat_tools self evs p, evs @ [Chat p])"

text \<open>The acceptance threshold, written \<^verbatim>\<open>0.3\<close> in \<^verbatim>\<open>_research_subcomponent\<close>.\<close>

definition threshold :: real where
  "threshold = 0.3"

text \<open>
  \<^verbatim>\<open>_analyze_website_content\<close>. The three subscripts \<^verbatim>\<open>args["..."]\<close> are evaluated in the
  order of the constructor call, and the first absent key raises \<^verbatim>\<open>KeyError\<close>.
\<close>

definition analyze_website_content ::
  "CustomResearcher \<Rightarrow> event list \<Rightarrow> string \<Rightarrow> string \<Rightarrow> string
     \<Rightarrow> (exn + WebsiteReport) \<times> event list" where
  "analyze_website_content self evs u page q =
     (case call_openai_with_tools self evs (AnalyzeRelevance q u (take 10000 page)) of
        (Inl e, evs1) \<Rightarrow> (Inl e, evs1)
      | (Inr tool_calls, evs1) \<Rightarrow>
          (case tool_calls of
             [] \<Rightarrow>
               (Inr \<lparr>url = u, content = page, relevance_score = 0,
                     summary = [], relevant_info = []\<rparr>, evs1)
           | tc # _ \<Rightarrow>
               if fn_name tc = ''analyze_website_relevance'' then
                 (case fn_arguments tc of
                    None \<Rightarrow> (Inl JSONDecodeError, evs1)
                  | Some args \<Rightarrow>
                      (case arg_relevance_score args of
                         None \<Rightarrow> (Inl (KeyError ''relevance_score''), evs1)
                       | Some score \<Rightarrow>
                           (case arg_summary args of
                              None \<Rightarrow> (Inl (KeyError ''summary''), evs1)
                            | Some summ \<Rightarrow>
                                (case arg_relevant_info args of
                                   None \<Rightarrow> (Inl (KeyError ''relevant_info''), evs1)
                                 | Some info \<Rightarrow>
                                     (Inr \<lparr>url = u, content = page, relevance_score = score,
                                           summary = summ, relevant_info = info\<rparr>, evs1)))))
               else
                 (Inr \<lparr>url = u, content = page, relevance_score = 0,
                       summary = [], relevant_info = []\<rparr>, evs1)))"

section \<open>The research loop of one subcomponent\<close>

text \<open>
  The innermost loop of \<^verbatim>\<open>_research_subcomponent\<close>, \<^verbatim>\<open>for url in urls[:3]\<close> (the caller
  passes the slice): crawl, and when the content is truthy, score it and append the report
  when its score is above the threshold. An exception of the scoring call leaves the loop.
\<close>

fun crawl_urls ::
  "CustomResearcher \<Rightarrow> string \<Rightarrow> string list \<Rightarrow> WebsiteReport list \<Rightarrow> event list
     \<Rightarrow> (exn + WebsiteReport list) \<times> event list" where
  "crawl_urls self subquery [] all_reports evs = (Inr all_reports, evs)"
| "crawl_urls self subquery (u # urls) all_reports evs =
     (case crawl_website self evs u of
        (None, evs1) \<Rightarrow> crawl_urls self subquery urls all_reports evs1
      | (Some page, evs1) \<Rightarrow>
          if page = [] then crawl_urls self subquery urls all_reports evs1
          else
            (case analyze_website_content self evs1 u page subquery of
               (Inl e, evs2) \<Rightarrow> (Inl e, evs2)
             | (Inr report, evs2) \<Rightarrow>
                 if relevance_score report > threshold
                 then crawl_urls self subquery urls (all_reports @ [report]) evs2
                 else crawl_urls self subquery urls all_reports evs2))"

text \<open>\<^verbatim>\<open>for search_query in search_queries\<close>: search, then the loop above on the top three.\<close>

fun search_loop ::
  "CustomResearcher \<Rightarrow> string \<Rightarrow> string list \<Rightarrow> WebsiteReport list \<Rightarrow> event list
     \<Rightarrow> (exn + WebsiteReport list) \<times> event list" where
  "search_loop self subquery [] all_reports evs = (Inr all_reports, evs)"
| "search_loop self subquery (search_query # search_queries) all_reports evs =
     (case google_search self evs search_query of
        (urls, evs1) \<Rightarrow>
          (case crawl_urls self subquery (take 3 urls) all_reports evs1 of
             (Inl e, evs2) \<Rightarrow> (Inl e, evs2)
           | (Inr all_reports', evs2) \<Rightarrow>
               search_loop self subquery search_queries all_reports' evs2))"

text \<open>The local variables of \<^verbatim>\<open>_research_subcomponent\<close> that live across iterations.\<close>

record loop_state =
  all_reports :: "WebsiteReport list"
  knowledge_gaps :: "string list"
  search_history :: "string list"
  loop_count :: int

text \<open>How one pass through the body of the \<^verbatim>\<open>while\<close> ends.\<close>

datatype control = Break loop_state | Next loop_state

text \<open>
  The body of \<^verbatim>\<open>while loop_count < self.max_loops\<close>, from the query-generation call to
  \<^verbatim>\<open>loop_count += 1\<close>. The \<^verbatim>\<open>print\<close> and \<^verbatim>\<open>sleep\<close> statements have no effect on the result.
\<close>

definition loop_body ::
  "CustomResearcher \<Rightarrow> string \<Rightarrow> loop_state \<Rightarrow> event list
     \<Rightarrow> (exn + control) \<times> event list" where
  "loop_body self subquery st evs =
     (case call_openai_with_tools self evs
             (GenerateQueries subquery (knowledge_gaps st) (search_history st)) of
        (Inl e, evs1) \<Rightarrow> (Inl e, evs1)
      | (Inr tool_calls, evs1) \<Rightarrow>
          (case tool_calls of
             [] \<Rightarrow> (Inr (Break st), evs1)
           | tc # _ \<Rightarrow>
               if fn_name tc \<noteq> ''generate_search_queries'' then (Inr (Break st), evs1)
               else
                 (case fn_arguments tc of
                    None \<Rightarrow> (Inl JSONDecodeError, evs1)
                  | Some args \<Rightarrow>
                      (let search_queries =
                             (case arg_queries args of None \<Rightarrow> [] | Some qs \<Rightarrow> qs);
                           st1 = st\<lparr>search_history := search_history st @ search_queries\<rparr>
                       in case search_loop self subquery search_queries (all_reports st1) evs1 of
                            (Inl e, evs2) \<Rightarrow> (Inl e, evs2)
                          | (Inr reports, evs2) \<Rightarrow>
                              (let st2 = st1\<lparr>all_reports := reports\<rparr>
                               in case call_openai_with_tools self evs2
                                         (AssessSufficiency subquery
                                            (map relevant_info (all_reports st2))) of
                                    (Inl e, evs3) \<Rightarrow> (Inl e, evs3)
                                  | (Inr tool_calls', evs3) \<Rightarrow>
                                      (case tool_calls' of
                                         [] \<Rightarrow>
                                           (Inr (Next (st2\<lparr>loop_count := loop_count st2 + 1\<rparr>)),
                                            evs3)
                                       | tc' # _ \<Rightarrow>
                                           if fn_name tc' = ''create_final_report'' then
                                             (case fn_arguments tc' of
                                                None \<Rightarrow> (Inl JSONDecodeError, evs3)
                                              | Some args' \<Rightarrow>
                                                  if (case arg_has_sufficient_info args' of
                                                        None \<Rightarrow> False | Some b \<Rightarrow> b)
                                                  then (Inr (Break st2), evs3)
                                                  else
                                                    (Inr (Next (st2\<lparr>knowledge_gaps :=
                                                             (case arg_missing_info args' of
                                                                None \<Rightarrow> [] | Some m \<Rightarrow> m),
                                                           loop_count := loop_count st2 + 1\<rparr>)),
                                                     evs3))
                                           else
                                             (Inr (Next (st2\<lparr>loop_count := loop_count st2 + 1\<rparr>)),
                                              evs3)))))))"

text \<open>
  The \<^verbatim>\<open>while\<close> loop: the body runs as long as \<^verbatim>\<open>loop_count < self.max_loops\<close>; a
  \<^verbatim>\<open>break\<close> or an exception leaves it.
\<close>

function research_loop ::
  "CustomResearcher \<Rightarrow> string \<Rightarrow> loop_state \<Rightarrow> event list
     \<Rightarrow> (exn + loop_state) \<times> event list" where
  "research_loop self subquery st evs =
     (if loop_count st < max_loops self then
        (case loop_body self subquery st evs of
           (Inl e, evs') \<Rightarrow> (Inl e, evs')
         | (Inr (Break st'), evs') \<Rightarrow> (Inr st', evs')
         | (Inr (Next st'), evs') \<Rightarrow> research_loop self subquery st' evs')
      else (Inr st, evs))"
  by pat_completeness auto
termination
  apply (relation "measure (\<lambda>(self, subquery, st, evs). nat (max_loops self - loop_count st))")
   apply simp
  apply (auto simp: loop_body_def Let_def
      split: prod.splits sum.splits list.splits option.splits if_splits)
  done

declare research_loop.simps [simp del]

text \<open>The dict that \<^verbatim>\<open>_research_subcomponent\<close> returns.\<close>

record subcomponent_result =
  result_subquery :: string
  result_reports :: "WebsiteReport list"
  result_loop_count :: int
  result_search_queries_used :: "string list"

text \<open>\<^verbatim>\<open>_research_subcomponent(subquery, loop_count)\<close>; \<^verbatim>\<open>research\<close> calls it with the default
  \<^verbatim>\<open>loop_count = 0\<close>.\<close>

definition research_subcomponent ::
  "CustomResearcher \<Rightarrow> event list \<Rightarrow> string \<Rightarrow> int
     \<Rightarrow> (exn + subcomponent_result) \<times> event list" where
  "research_subcomponent self evs subquery lc =
     (case research_loop self subquery
             \<lparr>all_reports = [], knowledge_gaps = [], search_history = [], loop_count = lc\<rparr> evs of
        (Inl e, evs') \<Rightarrow> (Inl e, evs')
      | (Inr st, evs') \<Rightarrow>
          (Inr \<lparr>result_subquery = subquery, result_reports = all_reports st,
                result_loop_count = loop_count st,
                result_search_queries_used = search_history st\<rparr>, evs'))"

section \<open>Report synthesis\<close>

abbreviation NL :: string where
  "NL \<equiv> [CHR 0x0A]"

abbreviation DQ :: string where
  "DQ \<equiv> [CHR 0x22]"

text \<open>\<^verbatim>\<open>str(n)\<close> for a length or an index, as an f-string formats it.\<close>

fun str_nat :: "nat \<Rightarrow> string" where
  "str_nat n =
     (if n < 10 then [char_of (48 + n)]
      else str_nat (n div 10) @ [char_of (48 + n mod 10)])"

declare str_nat.simps [simp del]

text \<open>\<^verbatim>\<open>sep.join(parts)\<close>.\<close>

fun join :: "string \<Rightarrow> string list \<Rightarrow> string" where
  "join sep [] = []"
| "join sep [p] = p"
| "join sep (p # ps) = p @ sep @ join sep ps"

text \<open>
  \<^verbatim>\<open>d[k] = v\<close> on a dict: an existing key keeps its position and takes the new value, a new
  key goes to the end.
\<close>

fun dict_set :: "('k \<times> 'v) list \<Rightarrow> 'k \<Rightarrow> 'v \<Rightarrow> ('k \<times> 'v) list" where
  "dict_set [] k v = [(k, v)]"
| "dict_set ((k', v') # d) k v =
     (if k' = k then (k, v) # d else (k', v') # dict_set d k v)"

text \<open>
  \<^verbatim>\<open>_generate_subcomponent_report\<close>: the model's text, or the fallback section when the
  call raises.
\<close>

definition generate_subcomponent_report ::
  "CustomResearcher \<Rightarrow> event list \<Rightarrow> string \<Rightarrow> WebsiteReport list \<Rightarrow> string \<times> event list" where
  "generate_subcomponent_report self evs subcomponent reports =
     (let p = SectionReport subcomponent
                (map (\<lambda>r. (url r, summary r, relevant_info r)) (take 10 reports))
      in case chat_text self evs p of
           Inr text \<Rightarrow> (text, evs @ [Chat p])
         | Inl e \<Rightarrow>
             (''## Analysis of '' @ subcomponent @ NL @ NL @
              ''    Based on '' @ str_nat (length reports) @ '' sources analyzed:'' @ NL @ NL @
              ''    ### Key Findings:'' @ NL @ ''    '' @
              join NL (map (\<lambda>r. ''- '' @ take 200 (relevant_info r) @ ''... (Source: '' @
                                   url r @ '')'') (take 5 reports)),
              evs @ [Chat p]))"

text \<open>\<^verbatim>\<open>_generate_executive_summary\<close>.\<close>

definition generate_executive_summary ::
  "CustomResearcher \<Rightarrow> event list \<Rightarrow> string \<Rightarrow> string list \<Rightarrow> nat
     \<Rightarrow> (string \<times> WebsiteReport list) list \<Rightarrow> string \<times> event list" where
  "generate_executive_summary self evs q subcomps total_sources fnd =
     (let findings_summary =
            map (\<lambda>(subcomp, reports).
                   ''- '' @ subcomp @ '': '' @ str_nat (length reports) @
                   '' relevant sources found'')
              (filter (\<lambda>(subcomp, reports). reports \<noteq> []) fnd);
          p = ExecutiveSummary q subcomps total_sources findings_summary
      in case chat_text self evs p of
           Inr text \<Rightarrow> (''## Executive Summary'' @ NL @ NL @ text @ NL, evs @ [Chat p])
         | Inl e \<Rightarrow>
             (''## Executive Summary'' @ NL @ NL @
              ''    This research report examines '' @ DQ @ q @ DQ @
              '' through a comprehensive analysis of '' @ str_nat total_sources @
              '' sources. The research was structured around '' @ str_nat (length subcomps) @
              '' key areas to ensure thorough coverage of the topic. Each area was '' @
              ''investigated through targeted searches and careful analysis of relevant '' @
              ''sources.'' @ NL @ NL @
              ''    The following sections provide detailed findings for each research '' @
              ''component, offering insights, trends, and key discoveries from the analyzed '' @
              ''sources.'' @ NL @ ''    '',
              evs @ [Chat p]))"

text \<open>\<^verbatim>\<open>_generate_conclusion\<close>; its parameter \<^verbatim>\<open>subcomponent_reports\<close> is not read.\<close>

definition generate_conclusion ::
  "CustomResearcher \<Rightarrow> event list \<Rightarrow> string \<Rightarrow> (string \<times> WebsiteReport list) list
     \<Rightarrow> string \<times> event list" where
  "generate_conclusion self evs q fnd =
     (let total = sum_list (map (\<lambda>(k, v). length v) fnd);
          p = Conclusion q (map fst fnd) total
      in case chat_text self evs p of
           Inr text \<Rightarrow> (NL @ ''## Conclusion'' @ NL @ NL @ text @ NL, evs @ [Chat p])
         | Inl e \<Rightarrow>
             (NL @ ''## Conclusion'' @ NL @ NL @
              ''    This comprehensive research into '' @ DQ @ q @ DQ @
              '' has revealed significant insights across multiple dimensions. The analysis '' @
              ''of '' @ str_nat total @
              '' sources provides a robust foundation for understanding the current state '' @
              ''and future trajectory of this topic.'' @ NL @ NL @
              ''    The findings demonstrate clear patterns of innovation and development, '' @
              ''with implications for both immediate applications and long-term strategic '' @
              ''planning. As this field continues to evolve, ongoing monitoring and research '' @
              ''will be essential to stay current with emerging trends and opportunities.'' @
              NL @ ''    '',
              evs @ [Chat p]))"

text \<open>\<^verbatim>\<open>_save_report\<close>: an exception of the file system propagates.\<close>

fun source_lines :: "nat \<Rightarrow> string list \<Rightarrow> string" where
  "source_lines i [] = []"
| "source_lines i (s # ss) = str_nat i @ ''. '' @ s @ NL @ source_lines (Suc i) ss"

definition save_report ::
  "CustomResearcher \<Rightarrow> event list \<Rightarrow> ResearchReport \<Rightarrow> (exn + unit) \<times> event list" where
  "save_report self evs report =
     (let filename = ''research_report_'' @ clock self evs @ ''.md'';
          evs1 = evs @ [Now];
          text = final_report report @ NL @ NL @ ''## Sources'' @ NL @
                 source_lines 1 (sources report) @
                 NL @ NL @ ''*Report generated on: '' @ timestamp report @ ''*''
      in case open_write self evs1 filename text of
           Some e \<Rightarrow> (Inl e, evs1 @ [WriteFile filename text])
         | None \<Rightarrow> (Inr (), evs1 @ [WriteFile filename text]))"

section \<open>The orchestrator\<close>

text \<open>
  The first step of \<^verbatim>\<open>research\<close>: the decomposition call and the choice of
  \<^verbatim>\<open>subcomponents\<close>, \<^verbatim>\<open>[query]\<close> by default.
\<close>

definition decompose_query ::
  "CustomResearcher \<Rightarrow> event list \<Rightarrow> string \<Rightarrow> (exn + string list) \<times> event list" where
  "decompose_query self evs q =
     (case call_openai_with_tools self evs (DecomposeQuery q) of
        (Inl e, evs1) \<Rightarrow> (Inl e, evs1)
      | (Inr tool_calls, evs1) \<Rightarrow>
          (case tool_calls of
             [] \<Rightarrow> (Inr [q], evs1)
           | tc # _ \<Rightarrow>
               if fn_name tc = ''decompose_query'' then
                 (case fn_arguments tc of
                    None \<Rightarrow> (Inl JSONDecodeError, evs1)
                  | Some args \<Rightarrow>
                      (Inr (case arg_subcomponents args of None \<Rightarrow> [q] | Some scs \<Rightarrow> scs),
                       evs1))
               else (Inr [q], evs1)))"

text \<open>The placeholder section of a subcomponent without findings.\<close>

definition no_information :: string where
  "no_information = ''No relevant information found for this topic.'' @ NL"

text \<open>
  \<^verbatim>\<open>for subcomponent in subcomponents\<close>: research it, store its reports in
  \<^verbatim>\<open>all_findings\<close> and its section in \<^verbatim>\<open>subcomponent_reports\<close>.
\<close>

fun research_each ::
  "CustomResearcher \<Rightarrow> string list \<Rightarrow> (string \<times> WebsiteReport list) list
     \<Rightarrow> (string \<times> string) list \<Rightarrow> event list
     \<Rightarrow> (exn + (string \<times> WebsiteReport list) list \<times> (string \<times> string) list) \<times> event list"
  where
  "research_each self [] all_findings subcomponent_reports evs =
     (Inr (all_findings, subcomponent_reports), evs)"
| "research_each self (subcomponent # rest) all_findings subcomponent_reports evs =
     (case research_subcomponent self evs subcomponent 0 of
        (Inl e, evs1) \<Rightarrow> (Inl e, evs1)
      | (Inr result, evs1) \<Rightarrow>
          (let all_findings' = dict_set all_findings subcomponent (result_reports result)
           in if result_reports result \<noteq> [] then
                (case generate_subcomponent_report self evs1 subcomponent
                        (result_reports result) of
                   (subcomponent_report, evs2) \<Rightarrow>
                     research_each self rest all_findings'
                       (dict_set subcomponent_reports subcomponent subcomponent_report) evs2)
              else
                research_each self rest all_findings'
                  (dict_set subcomponent_reports subcomponent no_information) evs1))"

text \<open>The three parts that \<^verbatim>\<open>research\<close> appends for one entry of \<^verbatim>\<open>subcomponent_reports\<close>.\<close>

definition section_parts :: "string \<times> string \<Rightarrow> string list" where
  "section_parts entry =
     (case entry of (subcomponent, report) \<Rightarrow>
        [NL @ ''### '' @ subcomponent @ NL, report, NL])"

definition final_report_text ::
  "string \<Rightarrow> (string \<times> string) list \<Rightarrow> string \<Rightarrow> string" where
  "final_report_text executive_summary subcomponent_reports conclusion =
     concat ([''# Research Report'' @ NL @ NL, executive_summary,
              NL @ ''## Detailed Findings'' @ NL]
             @ concat (map section_parts subcomponent_reports)
             @ [conclusion])"

text \<open>
  \<^verbatim>\<open>research\<close>. The clock is read three times: for the timestamp of the report, for
  the file name in \<^verbatim>\<open>_save_report\<close>, and for the file name that the last \<^verbatim>\<open>print\<close>
  shows once the report is saved.
\<close>

definition research ::
  "CustomResearcher \<Rightarrow> event list \<Rightarrow> string \<Rightarrow> (exn + ResearchReport) \<times> event list" where
  "research self evs q =
     (case decompose_query self evs q of
        (Inl e, evs1) \<Rightarrow> (Inl e, evs1)
      | (Inr subcomps, evs1) \<Rightarrow>
          (case research_each self subcomps [] [] evs1 of
             (Inl e, evs2) \<Rightarrow> (Inl e, evs2)
           | (Inr (all_findings, subcomponent_reports), evs2) \<Rightarrow>
               (let total_sources = sum_list (map (\<lambda>(k, v). length v) all_findings)
                in case generate_executive_summary self evs2 q subcomps total_sources
                          all_findings of
                     (executive_summary, evs3) \<Rightarrow>
                       (case generate_conclusion self evs3 q all_findings of
                          (conclusion, evs4) \<Rightarrow>
                            (let all_sources = concat (map (\<lambda>(k, v). map url v) all_findings);
                                 research_report =
                                   \<lparr>query = q, subcomponents = subcomps,
                                    findings = all_findings,
                                    final_report =
                                      final_report_text executive_summary
                                        subcomponent_reports conclusion,
                                    timestamp = clock self evs4,
                                    sources = remdups all_sources\<rparr>
                             in case save_report self (evs4 @ [Now]) research_report of
                                  (Inl e, evs5) \<Rightarrow> (Inl e, evs5)
                                | (Inr _, evs5) \<Rightarrow> (Inr research_report, evs5 @ [Now]))))))"

section \<open>Vocabulary of the properties\<close>

text \<open>One pass through the loop body begins with exactly one query-generation call.\<close>

fun is_generation :: "event \<Rightarrow> bool" where
  "is_generation (Chat (GenerateQueries _ _ _)) = True"
| "is_generation _ = False"

definition iterations :: "event list \<Rightarrow> nat" where
  "iterations evs = length (filter is_generation evs)"

text \<open>The queries handed to \<^verbatim>\<open>_google_search\<close>, in order.\<close>

fun searched_queries :: "event list \<Rightarrow> string list" where
  "searched_queries [] = []"
| "searched_queries (GoogleSearch q # evs) = q # searched_queries evs"
| "searched_queries (_ # evs) = searched_queries evs"

text \<open>Events of the page loop: a crawl, or the scoring call on a crawled page.\<close>

fun is_page_event :: "event \<Rightarrow> bool" where
  "is_page_event (Crawl _) = True"
| "is_page_event (Chat (AnalyzeRelevance _ _ _)) = True"
| "is_page_event _ = False"

section \<open>Concrete researchers\<close>

text \<open>Tool arguments with no key present, and collaborators that answer the same way
  every time.\<close>

definition no_args :: tool_args where
  "no_args =
     \<lparr>arg_queries = None, arg_relevance_score = None, arg_summary = None,
      arg_relevant_info = None, arg_subcomponents = None, arg_has_sufficient_info = None,
      arg_missing_info = None\<rparr>"

definition relevant_page :: tool_call where
  "relevant_page =
     ToolCall ''analyze_website_relevance''
       (Some (no_args\<lparr>arg_relevance_score := Some 0.9, arg_summary := Some ''s'',
                       arg_relevant_info := Some ''i''\<rparr>))"

definition queries_call :: "string list \<Rightarrow> tool_call" where
  "queries_call qs = ToolCall ''generate_search_queries'' (Some (no_args\<lparr>arg_queries := Some qs\<rparr>))"

text \<open>
  A model that proposes the given queries in every iteration, scores every page 0.9, and
  answers the sufficiency and decomposition prompts without a tool call.
\<close>

definition steady_model :: "string list \<Rightarrow> event list \<Rightarrow> prompt \<Rightarrow> exn + tool_call list" where
  "steady_model qs evs p =
     (case p of
        GenerateQueries _ _ _ \<Rightarrow> Inr [queries_call qs]
      | AnalyzeRelevance _ _ _ \<Rightarrow> Inr [relevant_page]
      | _ \<Rightarrow> Inr [])"

text \<open>
  A researcher around a tool-calling model: every search returns the one URL
  \<^verbatim>\<open>http://a\<close>, every crawl the text \<^verbatim>\<open>page\<close>, synthesis and persistence succeed.
\<close>

definition researcher_with ::
  "int \<Rightarrow> (event list \<Rightarrow> prompt \<Rightarrow> exn + tool_call list) \<Rightarrow> CustomResearcher" where
  "researcher_with n model =
     \<lparr>max_loops = n, search_results_per_query = 5,
      chat_tools = model,
      chat_text = (\<lambda>evs p. Inr ''text''),
      googlesearch = (\<lambda>evs q k. Inr [''http://a'']),
      requests_get = (\<lambda>evs q k. None),
      crawler_arun = (\<lambda>evs u. Inr (Some ''page'')),
      clock = (\<lambda>evs. ''t''),
      open_write = (\<lambda>evs f t. None)\<rparr>"

definition accepted_page :: WebsiteReport where
  "accepted_page =
     \<lparr>url = ''http://a'', content = ''page'', relevance_score = 0.9, summary = ''s'',
      relevant_info = ''i''\<rparr>"

text \<open>A model whose every call raises.\<close>

definition failing_model :: "event list \<Rightarrow> prompt \<Rightarrow> exn + tool_call list" where
  "failing_model evs p = Inl APIError"

text \<open>A model that never calls a tool.\<close>

definition silent_model :: "event list \<Rightarrow> prompt \<Rightarrow> exn + tool_call list" where
  "silent_model evs p = Inr []"

text \<open>A model that proposes the query \<^verbatim>\<open>q\<close> and scores pages, and raises on every other
  prompt.\<close>

definition fragile_model :: "event list \<Rightarrow> prompt \<Rightarrow> exn + tool_call list" where
  "fragile_model evs p =
     (case p of
        GenerateQueries _ _ _ \<Rightarrow> Inr [queries_call [''q'']]
      | AnalyzeRelevance _ _ _ \<Rightarrow> Inr [relevant_page]
      | _ \<Rightarrow> Inl APIError)"

text \<open>The state in which \<^verbatim>\<open>_research_subcomponent\<close> enters its loop.\<close>

definition initial_state :: loop_state where
  "initial_state =
     \<lparr>all_reports = [], knowledge_gaps = [], search_history = [], loop_count = 0\<rparr>"

text \<open>
  A model that decomposes every query into the subcomponents \<^verbatim>\<open>a\<close> and \<^verbatim>\<open>b\<close>, proposes the
  query \<^verbatim>\<open>q\<close> for \<^verbatim>\<open>a\<close> and nothing for \<^verbatim>\<open>b\<close>, and scores every page 0.9.
\<close>

definition planning_model :: "event list \<Rightarrow> prompt \<Rightarrow> exn + tool_call list" where
  "planning_model evs p =
     (case p of
        DecomposeQuery _ \<Rightarrow>
          Inr [ToolCall ''decompose_query''
                 (Some (no_args\<lparr>arg_subcomponents := Some [''a'', ''b'']\<rparr>))]
      | GenerateQueries sq _ _ \<Rightarrow> if sq = ''a'' then Inr [queries_call [''q'']] else Inr []
      | AnalyzeRelevance _ _ _ \<Rightarrow> Inr [relevant_page]
      | _ \<Rightarrow> Inr [])"

section \<open>Events and accumulation\<close>

lemmas run_defs =
  research_subcomponent_def research_loop.simps loop_body_def call_openai_with_tools_def
  google_search_def crawl_website_def analyze_website_content_def threshold_def

lemmas researcher_defs =
  researcher_with_def steady_model_def queries_call_def relevant_page_def no_args_def
  accepted_page_def failing_model_def silent_model_def fragile_model_def
  initial_state_def planning_model_def

lemma searched_queries_append:
  "searched_queries (xs @ ys) = searched_queries xs @ searched_queries ys"
  by (induction xs rule: searched_queries.induct) simp_all

lemma iterations_append: "iterations (xs @ ys) = iterations xs + iterations ys"
  by (simp add: iterations_def)

lemma page_events_quiet:
  "\<forall>e \<in> set evs. is_page_event e \<Longrightarrow> iterations evs = 0 \<and> searched_queries evs = []"
proof (induction evs)
  case Nil
  show ?case by (simp add: iterations_def)
next
  case (Cons e evs)
  then have "is_page_event e" and rest: "iterations evs = 0 \<and> searched_queries evs = []"
    by simp_all
  then show ?case
    by (cases e rule: is_page_event.cases) (simp_all add: iterations_def)
qed

lemma analyze_events:
  "analyze_website_content self evs u page q = (r, evs')
     \<Longrightarrow> evs' = evs @ [Chat (AnalyzeRelevance q u (take 10000 page))]"
  by (auto simp: analyze_website_content_def call_openai_with_tools_def
      split: sum.splits list.splits option.splits if_splits)

lemma crawl_urls_events:
  "crawl_urls self subquery urls acc evs = (r, evs')
     \<Longrightarrow> \<exists>new. evs' = evs @ new \<and> (\<forall>e \<in> set new. is_page_event e)"
proof (induction urls arbitrary: acc evs)
  case Nil
  then show ?case by simp
next
  case (Cons u urls)
  have step: "\<exists>new. evs' = evs @ new \<and> (\<forall>e \<in> set new. is_page_event e)"
    if "crawl_urls self subquery urls acc1 (evs @ mid) = (r, evs')"
      and "\<forall>e \<in> set mid. is_page_event e" for acc1 mid
  proof -
    from Cons.IH[OF that(1)] obtain new where
      "evs' = (evs @ mid) @ new" "\<forall>e \<in> set new. is_page_event e" by blast
    with that(2) show ?thesis by (intro exI[of _ "mid @ new"]) auto
  qed
  obtain page where cw: "crawl_website self evs u = (page, evs @ [Crawl u])"
    by (simp add: crawl_website_def)
  show ?case
  proof (cases "page = None \<or> page = Some []")
    case True
    with Cons.prems cw have "crawl_urls self subquery urls acc (evs @ [Crawl u]) = (r, evs')"
      by auto
    then show ?thesis by (rule step) simp
  next
    case False
    then obtain p where p: "page = Some p" "p \<noteq> []" by auto
    obtain ar where an: "analyze_website_content self (evs @ [Crawl u]) u p subquery
        = (ar, evs @ [Crawl u] @ [Chat (AnalyzeRelevance subquery u (take 10000 p))])"
      using analyze_events by (cases "analyze_website_content self (evs @ [Crawl u]) u p subquery") fastforce
    show ?thesis
    proof (cases ar)
      case (Inl e)
      with Cons.prems cw p an show ?thesis by auto
    next
      case (Inr report)
      with Cons.prems cw p an
      have "\<exists>acc1. crawl_urls self subquery urls acc1
              (evs @ [Crawl u, Chat (AnalyzeRelevance subquery u (take 10000 p))]) = (r, evs')"
        by (auto split: if_splits)
      then obtain acc1 where "crawl_urls self subquery urls acc1
              (evs @ [Crawl u, Chat (AnalyzeRelevance subquery u (take 10000 p))]) = (r, evs')" ..
      then show ?thesis by (rule step) simp
    qed
  qed
qed

lemma crawl_urls_accumulates:
  "crawl_urls self subquery urls acc evs = (Inr acc', evs')
     \<Longrightarrow> \<exists>new. acc' = acc @ new \<and> (\<forall>r \<in> set new. threshold < relevance_score r)"
proof (induction urls arbitrary: acc evs)
  case Nil
  then show ?case by simp
next
  case (Cons u urls)
  obtain page evs1 where cw: "crawl_website self evs u = (page, evs1)"
    by (cases "crawl_website self evs u")
  show ?case
  proof (cases "page = None \<or> page = Some []")
    case True
    with Cons.prems cw have "crawl_urls self subquery urls acc evs1 = (Inr acc', evs')"
      by auto
    then show ?thesis by (rule Cons.IH)
  next
    case False
    then obtain p where p: "page = Some p" "p \<noteq> []" by auto
    obtain ar evs2 where an: "analyze_website_content self evs1 u p subquery = (ar, evs2)"
      by (cases "analyze_website_content self evs1 u p subquery")
    show ?thesis
    proof (cases ar)
      case (Inl e)
      with Cons.prems cw p an show ?thesis by simp
    next
      case (Inr report)
      show ?thesis
      proof (cases "threshold < relevance_score report")
        case True
        with Cons.prems cw p an Inr
        have "crawl_urls self subquery urls (acc @ [report]) evs2 = (Inr acc', evs')"
          by simp
        from Cons.IH[OF this] obtain new where
          "acc' = (acc @ [report]) @ new" "\<forall>r \<in> set new. threshold < relevance_score r"
          by blast
        with True show ?thesis by (intro exI[of _ "report # new"]) simp
      next
        case False
        with Cons.prems cw p an Inr
        have "crawl_urls self subquery urls acc evs2 = (Inr acc', evs')"
          by simp
        then show ?thesis by (rule Cons.IH)
      qed
    qed
  qed
qed

lemma google_search_events:
  "google_search self evs q = (urls, evs')
     \<Longrightarrow> \<exists>new. evs' = evs @ new \<and> iterations new = 0 \<and> searched_queries new = [q]"
  by (auto simp: google_search_def scrape_google_serp_def iterations_def split: sum.splits)

lemma search_loop_events:
  "search_loop self subquery qs acc evs = (r, evs')
     \<Longrightarrow> \<exists>new. evs' = evs @ new \<and> iterations new = 0 \<and>
           (\<forall>acc'. r = Inr acc' \<longrightarrow> searched_queries new = qs)"
proof (induction qs arbitrary: acc evs)
  case Nil
  then show ?case by (simp add: iterations_def)
next
  case (Cons q qs)
  obtain urls evs1 where gs: "google_search self evs q = (urls, evs1)"
    by (cases "google_search self evs q")
  then obtain n1 where n1: "evs1 = evs @ n1" "iterations n1 = 0" "searched_queries n1 = [q]"
    using google_search_events by blast
  obtain cr evs2 where cu: "crawl_urls self subquery (take 3 urls) acc evs1 = (cr, evs2)"
    by (cases "crawl_urls self subquery (take 3 urls) acc evs1")
  then obtain n2 where n2: "evs2 = evs1 @ n2" "\<forall>e \<in> set n2. is_page_event e"
    using crawl_urls_events by blast
  then have q2: "iterations n2 = 0" "searched_queries n2 = []"
    using page_events_quiet by blast+
  show ?case
  proof (cases cr)
    case (Inl e)
    with Cons.prems gs cu have "r = Inl e" "evs' = evs2" by simp_all
    with n1 n2 q2 show ?thesis
      by (intro exI[of _ "n1 @ n2"]) (simp add: iterations_append)
  next
    case (Inr mid)
    with Cons.prems gs cu have "search_loop self subquery qs mid evs2 = (r, evs')"
      by simp
    from Cons.IH[OF this] obtain n3 where
      n3: "evs' = evs2 @ n3" "iterations n3 = 0" "\<forall>acc'. r = Inr acc' \<longrightarrow> searched_queries n3 = qs"
      by blast
    with n1 n2 q2 show ?thesis
      by (intro exI[of _ "n1 @ n2 @ n3"]) (simp add: iterations_append searched_queries_append)
  qed
qed

lemma search_loop_accumulates:
  "search_loop self subquery qs acc evs = (Inr acc', evs')
     \<Longrightarrow> \<exists>new. acc' = acc @ new \<and> (\<forall>r \<in> set new. threshold < relevance_score r)"
proof (induction qs arbitrary: acc evs)
  case Nil
  then show ?case by simp
next
  case (Cons q qs)
  obtain urls evs1 where gs: "google_search self evs q = (urls, evs1)"
    by (cases "google_search self evs q")
  obtain r evs2 where cu: "crawl_urls self subquery (take 3 urls) acc evs1 = (r, evs2)"
    by (cases "crawl_urls self subquery (take 3 urls) acc evs1")
  show ?case
  proof (cases r)
    case (Inl e)
    with Cons.prems gs cu show ?thesis by simp
  next
    case (Inr mid)
    with Cons.prems gs cu have "search_loop self subquery qs mid evs2 = (Inr acc', evs')"
      by simp
    from Cons.IH[OF this] obtain new2 where
      n2: "acc' = mid @ new2" "\<forall>r \<in> set new2. threshold < relevance_score r" by blast
    from cu Inr crawl_urls_accumulates obtain new1 where
      n1: "mid = acc @ new1" "\<forall>r \<in> set new1. threshold < relevance_score r" by blast
    from n1 n2 show ?thesis by (intro exI[of _ "new1 @ new2"]) auto
  qed
qed

text \<open>What one pass through the loop body does to the state and to the event log.\<close>

lemma loop_body_summary:
  assumes run: "loop_body self subquery st evs = (r, evs')"
  shows "\<exists>new. evs' = evs @ new \<and> iterations new = 1 \<and>
           (\<forall>c. r = Inr c \<longrightarrow>
              (\<exists>st' added.
                 (c = Break st' \<and> loop_count st' = loop_count st \<or>
                  c = Next st' \<and> loop_count st' = loop_count st + 1) \<and>
                 search_history st' = search_history st @ searched_queries new \<and>
                 all_reports st' = all_reports st @ added \<and>
                 (\<forall>w \<in> set added. threshold < relevance_score w)))"
proof -
  define gen where "gen = GenerateQueries subquery (knowledge_gaps st) (search_history st)"
  have g1: "iterations [Chat gen] = 1" "searched_queries [Chat gen] = []"
    by (simp_all add: gen_def iterations_def)
  show ?thesis
  proof (cases "chat_tools self evs gen")
    case (Inl e)
    with run have "r = Inl e" "evs' = evs @ [Chat gen]"
      by (simp_all add: loop_body_def call_openai_with_tools_def gen_def)
    with g1 show ?thesis by (intro exI[of _ "[Chat gen]"]) simp
  next
    case (Inr tcs)
    show ?thesis
    proof (cases "tcs = [] \<or> fn_name (hd tcs) \<noteq> ''generate_search_queries''")
      case True
      with run Inr have "r = Inr (Break st)" "evs' = evs @ [Chat gen]"
        by (auto simp: loop_body_def call_openai_with_tools_def gen_def split: list.splits)
      with g1 show ?thesis by (intro exI[of _ "[Chat gen]"]) simp
    next
      case False
      then obtain tc rest where tcs: "tcs = tc # rest"
        and name: "fn_name tc = ''generate_search_queries''"
        by (cases tcs) auto
      show ?thesis
      proof (cases "fn_arguments tc")
        case None
        with run Inr tcs name have "r = Inl JSONDecodeError" "evs' = evs @ [Chat gen]"
          by (simp_all add: loop_body_def call_openai_with_tools_def gen_def)
        with g1 show ?thesis by (intro exI[of _ "[Chat gen]"]) simp
      next
        case (Some args)
        define qs where "qs = (case arg_queries args of None \<Rightarrow> [] | Some qs \<Rightarrow> qs)"
        obtain sr evs2 where
          sl: "search_loop self subquery qs (all_reports st) (evs @ [Chat gen]) = (sr, evs2)"
          by (cases "search_loop self subquery qs (all_reports st) (evs @ [Chat gen])")
        from search_loop_events[OF sl] obtain n2 where
          n2: "evs2 = (evs @ [Chat gen]) @ n2" "iterations n2 = 0"
              "\<forall>acc'. sr = Inr acc' \<longrightarrow> searched_queries n2 = qs"
          by blast
        show ?thesis
        proof (cases sr)
          case (Inl e)
          with run Inr tcs name Some sl have "r = Inl e" "evs' = evs2"
            by (simp_all add: loop_body_def call_openai_with_tools_def gen_def qs_def Let_def)
          moreover have "iterations ([Chat gen] @ n2) = 1"
            using g1 n2 by (simp add: iterations_append del: append.simps)
          ultimately show ?thesis
            using n2 by (intro exI[of _ "[Chat gen] @ n2"]) simp
        next
          case (Inr reports)
          from search_loop_accumulates[OF sl[unfolded Inr]] obtain added where
            added: "reports = all_reports st @ added"
                   "\<forall>w \<in> set added. threshold < relevance_score w"
            by blast
          from n2 Inr have sq: "searched_queries n2 = qs" by simp
          define ask where "ask = AssessSufficiency subquery (map relevant_info reports)"
          define st2 where
            "st2 = st\<lparr>search_history := search_history st @ qs, all_reports := reports\<rparr>"
          have a1: "iterations [Chat ask] = 0" "searched_queries [Chat ask] = []"
            by (simp_all add: ask_def iterations_def)
          have ev: "evs' = evs2 @ [Chat ask]"
            using run \<open>chat_tools self evs gen = Inr tcs\<close> tcs name Some sl Inr
            by (auto simp: loop_body_def call_openai_with_tools_def gen_def qs_def Let_def
                ask_def split: sum.splits list.splits option.splits if_splits)
          have out: "(\<exists>e. r = Inl e) \<or> r = Inr (Break st2) \<or>
                     (\<exists>st'. r = Inr (Next st') \<and> loop_count st' = loop_count st + 1 \<and>
                        search_history st' = search_history st2 \<and>
                        all_reports st' = all_reports st2)"
            using run \<open>chat_tools self evs gen = Inr tcs\<close> tcs name Some sl Inr
            by (auto simp: loop_body_def call_openai_with_tools_def gen_def qs_def Let_def
                st2_def split: sum.splits list.splits option.splits if_splits)
          have "evs' = evs @ ([Chat gen] @ n2 @ [Chat ask])"
            using ev n2 by simp
          moreover have "iterations ([Chat gen] @ n2 @ [Chat ask]) = 1"
            using g1 n2 a1 by (simp add: iterations_append del: append.simps)
          moreover have "searched_queries ([Chat gen] @ n2 @ [Chat ask]) = qs"
            using g1 sq a1 by (simp add: searched_queries_append del: append.simps)
          ultimately show ?thesis
            using out added
            by (intro exI[of _ "[Chat gen] @ n2 @ [Chat ask]"]) (auto simp: st2_def)
        qed
      qed
    qed
  qed
qed

text \<open>The same for the whole loop, by induction on its unfolding.\<close>

lemma research_loop_summary:
  "research_loop self subquery st evs = (r, evs') \<Longrightarrow>
     \<exists>new. evs' = evs @ new \<and>
       int (iterations new) \<le> max 0 (max_loops self - loop_count st) \<and>
       (\<forall>st'. r = Inr st' \<longrightarrow>
          loop_count st' \<le> max (loop_count st) (max_loops self) \<and>
          search_history st' = search_history st @ searched_queries new \<and>
          (\<exists>added. all_reports st' = all_reports st @ added \<and>
                   (\<forall>w \<in> set added. threshold < relevance_score w)))"
proof (induction self subquery st evs arbitrary: r evs' rule: research_loop.induct)
  case (1 self subquery st evs)
  show ?case
  proof (cases "loop_count st < max_loops self")
    case False
    with "1.prems" have "r = Inr st" "evs' = evs"
      by (simp_all add: research_loop.simps)
    then show ?thesis
      by (intro exI[of _ "[]"]) (simp add: iterations_def)
  next
    case True
    obtain br evs1 where lb: "loop_body self subquery st evs = (br, evs1)"
      by (cases "loop_body self subquery st evs")
    from loop_body_summary[OF lb] obtain n1 where
      n1: "evs1 = evs @ n1" "iterations n1 = 1"
      and c1: "\<forall>c. br = Inr c \<longrightarrow>
              (\<exists>st' added.
                 (c = Break st' \<and> loop_count st' = loop_count st \<or>
                  c = Next st' \<and> loop_count st' = loop_count st + 1) \<and>
                 search_history st' = search_history st @ searched_queries n1 \<and>
                 all_reports st' = all_reports st @ added \<and>
                 (\<forall>w \<in> set added. threshold < relevance_score w))"
      by blast
    show ?thesis
    proof (cases br)
      case (Inl e)
      with "1.prems" True lb have "r = Inl e" "evs' = evs1"
        by (simp_all add: research_loop.simps)
      with n1 True show ?thesis by (intro exI[of _ n1]) simp
    next
      case (Inr c)
      with c1 obtain st1 added1 where
        shape: "c = Break st1 \<and> loop_count st1 = loop_count st \<or>
                c = Next st1 \<and> loop_count st1 = loop_count st + 1"
        and h1: "search_history st1 = search_history st @ searched_queries n1"
        and a1: "all_reports st1 = all_reports st @ added1"
                "\<forall>w \<in> set added1. threshold < relevance_score w"
        by blast
      show ?thesis
      proof (cases c)
        case (Break st')
        with shape have eq: "st' = st1" "loop_count st1 = loop_count st" by auto
        from "1.prems" True lb Inr Break have "r = Inr st'" "evs' = evs1"
          by (simp_all add: research_loop.simps)
        with n1 True eq h1 a1 show ?thesis by (intro exI[of _ n1]) auto
      next
        case (Next st')
        with shape have eq: "st' = st1" "loop_count st1 = loop_count st + 1" by auto
        from "1.prems" True lb Inr Next
        have rec: "research_loop self subquery st' evs1 = (r, evs')"
          by (simp add: research_loop.simps)
        from "1.IH"[OF True lb[symmetric] Inr Next rec] obtain n2 where
          n2: "evs' = evs1 @ n2"
              "int (iterations n2) \<le> max 0 (max_loops self - loop_count st')"
          and c2: "\<forall>st''. r = Inr st'' \<longrightarrow>
                loop_count st'' \<le> max (loop_count st') (max_loops self) \<and>
                search_history st'' = search_history st' @ searched_queries n2 \<and>
                (\<exists>added. all_reports st'' = all_reports st' @ added \<and>
                         (\<forall>w \<in> set added. threshold < relevance_score w))"
          by blast
        have "evs' = evs @ (n1 @ n2)" using n1 n2 by simp
        moreover have "int (iterations (n1 @ n2)) \<le> max 0 (max_loops self - loop_count st)"
          using n1 n2 eq True by (simp add: iterations_append)
        moreover have "\<forall>st''. r = Inr st'' \<longrightarrow>
                loop_count st'' \<le> max (loop_count st) (max_loops self) \<and>
                search_history st'' = search_history st @ searched_queries (n1 @ n2) \<and>
                (\<exists>added. all_reports st'' = all_reports st @ added \<and>
                         (\<forall>w \<in> set added. threshold < relevance_score w))"
        proof (intro allI impI)
          fix st''
          assume "r = Inr st''"
          with c2 obtain added2 where
            l2: "loop_count st'' \<le> max (loop_count st') (max_loops self)"
            and s2: "search_history st'' = search_history st' @ searched_queries n2"
            and a2: "all_reports st'' = all_reports st' @ added2"
                    "\<forall>w \<in> set added2. threshold < relevance_score w"
            by blast
          have "all_reports st'' = all_reports st @ (added1 @ added2)"
            using a1 a2 eq by simp
          moreover have "\<forall>w \<in> set (added1 @ added2). threshold < relevance_score w"
            using a1 a2 by auto
          ultimately have "\<exists>added. all_reports st'' = all_reports st @ added \<and>
                         (\<forall>w \<in> set added. threshold < relevance_score w)"
            by blast
          moreover have "loop_count st'' \<le> max (loop_count st) (max_loops self)"
            using l2 eq True by simp
          moreover have "search_history st'' = search_history st @ searched_queries (n1 @ n2)"
            using s2 h1 eq by (simp add: searched_queries_append)
          ultimately show "loop_count st'' \<le> max (loop_count st) (max_loops self) \<and>
                search_history st'' = search_history st @ searched_queries (n1 @ n2) \<and>
                (\<exists>added. all_reports st'' = all_reports st @ added \<and>
                         (\<forall>w \<in> set added. threshold < relevance_score w))"
            by blast
        qed
        ultimately show ?thesis by blast
      qed
    qed
  qed
qed

section \<open>Concrete runs\<close>

lemma run_two_queries:
  "research_subcomponent (researcher_with 1 (steady_model [''q1'', ''q2''])) [] ''topic'' 0 =
     (Inr \<lparr>result_subquery = ''topic'', result_reports = [accepted_page, accepted_page],
           result_loop_count = 1, result_search_queries_used = [''q1'', ''q2'']\<rparr>,
      [Chat (GenerateQueries ''topic'' [] []),
       GoogleSearch ''q1'', Crawl ''http://a'',
       Chat (AnalyzeRelevance ''topic'' ''http://a'' ''page''),
       GoogleSearch ''q2'', Crawl ''http://a'',
       Chat (AnalyzeRelevance ''topic'' ''http://a'' ''page''),
       Chat (AssessSufficiency ''topic'' [''i'', ''i''])])"
  by (simp add: run_defs researcher_defs)

lemma run_repeated_query:
  "research_subcomponent (researcher_with 2 (steady_model [''q''])) [] ''topic'' 0 =
     (Inr \<lparr>result_subquery = ''topic'', result_reports = [accepted_page, accepted_page],
           result_loop_count = 2, result_search_queries_used = [''q'', ''q'']\<rparr>,
      [Chat (GenerateQueries ''topic'' [] []),
       GoogleSearch ''q'', Crawl ''http://a'',
       Chat (AnalyzeRelevance ''topic'' ''http://a'' ''page''),
       Chat (AssessSufficiency ''topic'' [''i'']),
       Chat (GenerateQueries ''topic'' [] [''q'']),
       GoogleSearch ''q'', Crawl ''http://a'',
       Chat (AnalyzeRelevance ''topic'' ''http://a'' ''page''),
       Chat (AssessSufficiency ''topic'' [''i'', ''i''])])"
  by (simp add: run_defs researcher_defs)

lemma run_no_queries:
  "research_subcomponent (researcher_with 1 (steady_model [])) [] ''topic'' 0 =
     (Inr \<lparr>result_subquery = ''topic'', result_reports = [],
           result_loop_count = 1, result_search_queries_used = []\<rparr>,
      [Chat (GenerateQueries ''topic'' [] []), Chat (AssessSufficiency ''topic'' [])])"
  by (simp add: run_defs researcher_defs)

lemma run_failing_model:
  "research_subcomponent (researcher_with 1 failing_model) [] ''topic'' 0 =
     (Inl APIError, [Chat (GenerateQueries ''topic'' [] [])])"
  by (simp add: run_defs researcher_defs)

section \<open>The accepted evidence of a subcomponent\<close>

text \<open>
  C1, as stated: the accepted evidence never holds two reports with the same URL. The code
  has no such check. With one iteration and two generated queries that both lead to
  \<^verbatim>\<open>http://a\<close>, the page is accepted twice.
\<close>

theorem accepted_urls_repeat:
  "research_subcomponent (researcher_with 1 (steady_model [''q1'', ''q2''])) [] ''topic'' 0 =
     (Inr \<lparr>result_subquery = ''topic'', result_reports = [accepted_page, accepted_page],
           result_loop_count = 1, result_search_queries_used = [''q1'', ''q2'']\<rparr>,
      [Chat (GenerateQueries ''topic'' [] []),
       GoogleSearch ''q1'', Crawl ''http://a'',
       Chat (AnalyzeRelevance ''topic'' ''http://a'' ''page''),
       GoogleSearch ''q2'', Crawl ''http://a'',
       Chat (AnalyzeRelevance ''topic'' ''http://a'' ''page''),
       Chat (AssessSufficiency ''topic'' [''i'', ''i''])])
   \<and> \<not> distinct (map url [accepted_page, accepted_page])"
  using run_two_queries by simp

text \<open>
  C1, amended: a crawled and scored page is appended to \<^verbatim>\<open>all_reports\<close> exactly when its
  score is above 0.3, whatever \<^verbatim>\<open>all_reports\<close> already holds; its URL is not compared with
  the URLs accepted before.
\<close>

theorem admission_by_score_alone:
  assumes "crawl_website self evs u = (Some page, evs1)"
    and "page \<noteq> []"
    and "analyze_website_content self evs1 u page subquery = (Inr report, evs2)"
  shows "crawl_urls self subquery [u] accepted evs =
           (Inr (if relevance_score report > 0.3 then accepted @ [report] else accepted),
            evs2)"
  using assms by (simp add: threshold_def)

theorem admission_by_score_alone_witness:
  "crawl_website (researcher_with 1 (steady_model [])) [] ''http://a''
     = (Some ''page'', [Crawl ''http://a''])
   \<and> ''page'' \<noteq> []
   \<and> analyze_website_content (researcher_with 1 (steady_model [])) [Crawl ''http://a'']
       ''http://a'' ''page'' ''topic''
     = (Inr accepted_page,
        [Crawl ''http://a'', Chat (AnalyzeRelevance ''topic'' ''http://a'' ''page'')])
   \<and> crawl_urls (researcher_with 1 (steady_model [])) ''topic'' [''http://a'']
       [accepted_page] []
     = (Inr [accepted_page, accepted_page],
        [Crawl ''http://a'', Chat (AnalyzeRelevance ''topic'' ''http://a'' ''page'')])"
proof -
  have c: "crawl_website (researcher_with 1 (steady_model [])) [] ''http://a''
             = (Some ''page'', [Crawl ''http://a''])"
    by (simp add: run_defs researcher_defs)
  have p: "''page'' \<noteq> []" by simp
  have a: "analyze_website_content (researcher_with 1 (steady_model [])) [Crawl ''http://a'']
             ''http://a'' ''page'' ''topic''
           = (Inr accepted_page,
              [Crawl ''http://a'', Chat (AnalyzeRelevance ''topic'' ''http://a'' ''page'')])"
    by (simp add: run_defs researcher_defs)
  show ?thesis
    using c p a admission_by_score_alone [OF c p a, of "[accepted_page]"]
    by (simp add: accepted_page_def)
qed

text \<open>
  C2: every report in the accepted evidence that a subcomponent run returns has a
  relevance score strictly above 0.3.
\<close>

theorem accepted_scores_above_threshold:
  assumes "research_subcomponent self evs subquery lc = (Inr res, evs')"
  shows "\<forall>w \<in> set (result_reports res). relevance_score w > 0.3"
proof -
  obtain st where
    loop: "research_loop self subquery
             \<lparr>all_reports = [], knowledge_gaps = [], search_history = [], loop_count = lc\<rparr> evs
           = (Inr st, evs')"
    and res: "result_reports res = all_reports st"
    using assms by (auto simp: research_subcomponent_def split: prod.splits sum.splits)
  from research_loop_summary[OF loop] obtain added where
    "all_reports st = [] @ added" "\<forall>w \<in> set added. threshold < relevance_score w"
    by auto
  with res show ?thesis by (simp add: threshold_def)
qed

theorem accepted_scores_above_threshold_witness:
  "research_subcomponent (researcher_with 1 (steady_model [''q1'', ''q2''])) [] ''topic'' 0 =
     (Inr \<lparr>result_subquery = ''topic'', result_reports = [accepted_page, accepted_page],
           result_loop_count = 1, result_search_queries_used = [''q1'', ''q2'']\<rparr>,
      [Chat (GenerateQueries ''topic'' [] []),
       GoogleSearch ''q1'', Crawl ''http://a'',
       Chat (AnalyzeRelevance ''topic'' ''http://a'' ''page''),
       GoogleSearch ''q2'', Crawl ''http://a'',
       Chat (AnalyzeRelevance ''topic'' ''http://a'' ''page''),
       Chat (AssessSufficiency ''topic'' [''i'', ''i''])])
   \<and> relevance_score accepted_page > 0.3"
  using run_two_queries accepted_scores_above_threshold [OF run_two_queries] by simp

section \<open>Queries and the search history\<close>

text \<open>
  C3, as stated: a query string is searched at most once per subcomponent. The history is
  only shown to the query generator; with a model that proposes \<^verbatim>\<open>q\<close> in both of two
  iterations, \<^verbatim>\<open>q\<close> is searched twice.
\<close>

theorem query_searched_twice:
  "research_subcomponent (researcher_with 2 (steady_model [''q''])) [] ''topic'' 0 =
     (Inr \<lparr>result_subquery = ''topic'', result_reports = [accepted_page, accepted_page],
           result_loop_count = 2, result_search_queries_used = [''q'', ''q'']\<rparr>,
      [Chat (GenerateQueries ''topic'' [] []),
       GoogleSearch ''q'', Crawl ''http://a'',
       Chat (AnalyzeRelevance ''topic'' ''http://a'' ''page''),
       Chat (AssessSufficiency ''topic'' [''i'']),
       Chat (GenerateQueries ''topic'' [] [''q'']),
       GoogleSearch ''q'', Crawl ''http://a'',
       Chat (AnalyzeRelevance ''topic'' ''http://a'' ''page''),
       Chat (AssessSufficiency ''topic'' [''i'', ''i''])])
   \<and> searched_queries
       [Chat (GenerateQueries ''topic'' [] []),
        GoogleSearch ''q'', Crawl ''http://a'',
        Chat (AnalyzeRelevance ''topic'' ''http://a'' ''page''),
        Chat (AssessSufficiency ''topic'' [''i'']),
        Chat (GenerateQueries ''topic'' [] [''q'']),
        GoogleSearch ''q'', Crawl ''http://a'',
        Chat (AnalyzeRelevance ''topic'' ''http://a'' ''page''),
        Chat (AssessSufficiency ''topic'' [''i'', ''i''])] = [''q'', ''q'']"
  using run_repeated_query by simp

text \<open>
  C3, amended: every generated query is appended to the search history and searched, in
  order and with repetitions, whether or not the history already holds it: in a pass
  whose generation call yields the queries \<open>qs\<close> and that reaches its end, the queries
  searched are exactly \<open>qs\<close> and the history grows by \<open>qs\<close>. So the queries searched during
  a run that returns are exactly its \<^verbatim>\<open>search_queries_used\<close>.
\<close>

theorem every_generated_query_is_searched:
  "(chat_tools self evs (GenerateQueries subquery (knowledge_gaps st) (search_history st))
      = Inr (tc # rest) \<and>
    fn_name tc = ''generate_search_queries'' \<and>
    fn_arguments tc = Some args \<and>
    qs = (case arg_queries args of None \<Rightarrow> [] | Some q \<Rightarrow> q) \<and>
    loop_body self subquery st evs = (Inr c, evs1) \<longrightarrow>
      (\<exists>new st'. evs1 = evs @ new \<and> searched_queries new = qs \<and>
                 (c = Break st' \<or> c = Next st') \<and>
                 search_history st' = search_history st @ qs))
   \<and> (research_subcomponent self evs subquery lc = (Inr res, evs') \<longrightarrow>
        (\<exists>new. evs' = evs @ new \<and> searched_queries new = result_search_queries_used res))"
proof (intro conjI impI)
  define gen where "gen = GenerateQueries subquery (knowledge_gaps st) (search_history st)"
  assume h: "chat_tools self evs (GenerateQueries subquery (knowledge_gaps st) (search_history st))
      = Inr (tc # rest) \<and>
    fn_name tc = ''generate_search_queries'' \<and>
    fn_arguments tc = Some args \<and>
    qs = (case arg_queries args of None \<Rightarrow> [] | Some q \<Rightarrow> q) \<and>
    loop_body self subquery st evs = (Inr c, evs1)"
  then have g: "chat_tools self evs gen = Inr (tc # rest)"
    and n: "fn_name tc = ''generate_search_queries''"
    and a: "fn_arguments tc = Some args"
    and q: "(case arg_queries args of None \<Rightarrow> [] | Some q \<Rightarrow> q) = qs"
    and lb: "loop_body self subquery st evs = (Inr c, evs1)"
    by (auto simp: gen_def)
  obtain sr evs2 where
    sl: "search_loop self subquery qs (all_reports st) (evs @ [Chat gen]) = (sr, evs2)"
    by (cases "search_loop self subquery qs (all_reports st) (evs @ [Chat gen])")
  from lb g n a q sl obtain reports where sr: "sr = Inr reports"
    by (cases sr)
      (auto simp: loop_body_def call_openai_with_tools_def Let_def gen_def[symmetric])
  from search_loop_events[OF sl] sr obtain n2 where
    n2: "evs2 = (evs @ [Chat gen]) @ n2" "searched_queries n2 = qs"
    by auto
  define ask where "ask = AssessSufficiency subquery (map relevant_info reports)"
  from lb g n a q sl sr have ev: "evs1 = evs2 @ [Chat ask]"
    by (auto simp: loop_body_def call_openai_with_tools_def Let_def gen_def[symmetric] ask_def
        split: sum.splits list.splits option.splits if_splits)
  from lb g n a q sl sr have
    st: "\<exists>st'. (c = Break st' \<or> c = Next st') \<and> search_history st' = search_history st @ qs"
    by (auto simp: loop_body_def call_openai_with_tools_def Let_def gen_def[symmetric]
        split: sum.splits list.splits option.splits if_splits)
  have "evs1 = evs @ ([Chat gen] @ n2 @ [Chat ask])"
    using ev n2 by simp
  moreover have "searched_queries ([Chat gen] @ n2 @ [Chat ask]) = qs"
    using n2 by (simp add: searched_queries_append gen_def ask_def del: append.simps)
  ultimately show "\<exists>new st'. evs1 = evs @ new \<and> searched_queries new = qs \<and>
                 (c = Break st' \<or> c = Next st') \<and>
                 search_history st' = search_history st @ qs"
    using st by blast
next
  assume run: "research_subcomponent self evs subquery lc = (Inr res, evs')"
  obtain st0 where
    loop: "research_loop self subquery
             \<lparr>all_reports = [], knowledge_gaps = [], search_history = [], loop_count = lc\<rparr> evs
           = (Inr st0, evs')"
    and res: "result_search_queries_used res = search_history st0"
    using run by (auto simp: research_subcomponent_def split: prod.splits sum.splits)
  from research_loop_summary[OF loop] obtain new where
    "evs' = evs @ new" "search_history st0 = [] @ searched_queries new"
    by auto
  with res show "\<exists>new. evs' = evs @ new \<and> searched_queries new = result_search_queries_used res"
    by auto
qed

text \<open>
  The witness: a pass that starts with \<^verbatim>\<open>q\<close> already in the history and is given \<^verbatim>\<open>q\<close>
  again searches it again; and the run of two passes.
\<close>

theorem every_generated_query_is_searched_witness:
  "loop_body (researcher_with 2 (steady_model [''q''])) ''topic''
     \<lparr>all_reports = [accepted_page], knowledge_gaps = [], search_history = [''q''],
      loop_count = 1\<rparr> [] =
     (Inr (Next \<lparr>all_reports = [accepted_page, accepted_page], knowledge_gaps = [],
                 search_history = [''q'', ''q''], loop_count = 2\<rparr>),
      [Chat (GenerateQueries ''topic'' [] [''q'']),
       GoogleSearch ''q'', Crawl ''http://a'',
       Chat (AnalyzeRelevance ''topic'' ''http://a'' ''page''),
       Chat (AssessSufficiency ''topic'' [''i'', ''i''])])
   \<and> searched_queries
        [Chat (GenerateQueries ''topic'' [] [''q'']),
         GoogleSearch ''q'', Crawl ''http://a'',
         Chat (AnalyzeRelevance ''topic'' ''http://a'' ''page''),
         Chat (AssessSufficiency ''topic'' [''i'', ''i''])] = [''q'']
   \<and> research_subcomponent (researcher_with 2 (steady_model [''q''])) [] ''topic'' 0 =
     (Inr \<lparr>result_subquery = ''topic'', result_reports = [accepted_page, accepted_page],
           result_loop_count = 2, result_search_queries_used = [''q'', ''q'']\<rparr>,
      [Chat (GenerateQueries ''topic'' [] []),
       GoogleSearch ''q'', Crawl ''http://a'',
       Chat (AnalyzeRelevance ''topic'' ''http://a'' ''page''),
       Chat (AssessSufficiency ''topic'' [''i'']),
       Chat (GenerateQueries ''topic'' [] [''q'']),
       GoogleSearch ''q'', Crawl ''http://a'',
       Chat (AnalyzeRelevance ''topic'' ''http://a'' ''page''),
       Chat (AssessSufficiency ''topic'' [''i'', ''i''])])
   \<and> searched_queries
        [Chat (GenerateQueries ''topic'' [] []),
         GoogleSearch ''q'', Crawl ''http://a'',
         Chat (AnalyzeRelevance ''topic'' ''http://a'' ''page''),
         Chat (AssessSufficiency ''topic'' [''i'']),
         Chat (GenerateQueries ''topic'' [] [''q'']),
         GoogleSearch ''q'', Crawl ''http://a'',
         Chat (AnalyzeRelevance ''topic'' ''http://a'' ''page''),
         Chat (AssessSufficiency ''topic'' [''i'', ''i''])] = [''q'', ''q'']"
proof -
  have g: "chat_tools (researcher_with 2 (steady_model [''q''])) []
             (GenerateQueries ''topic''
                (knowledge_gaps \<lparr>all_reports = [accepted_page], knowledge_gaps = [],
                                 search_history = [''q''], loop_count = 1\<rparr>)
                (search_history \<lparr>all_reports = [accepted_page], knowledge_gaps = [],
                                 search_history = [''q''], loop_count = 1\<rparr>))
           = Inr (queries_call [''q''] # [])"
    by (simp add: researcher_defs)
  have lb: "loop_body (researcher_with 2 (steady_model [''q''])) ''topic''
     \<lparr>all_reports = [accepted_page], knowledge_gaps = [], search_history = [''q''],
      loop_count = 1\<rparr> [] =
     (Inr (Next \<lparr>all_reports = [accepted_page, accepted_page], knowledge_gaps = [],
                 search_history = [''q'', ''q''], loop_count = 2\<rparr>),
      [Chat (GenerateQueries ''topic'' [] [''q'']),
       GoogleSearch ''q'', Crawl ''http://a'',
       Chat (AnalyzeRelevance ''topic'' ''http://a'' ''page''),
       Chat (AssessSufficiency ''topic'' [''i'', ''i''])])"
    by (simp add: run_defs researcher_defs)
  show ?thesis
    using g lb run_repeated_query
      every_generated_query_is_searched
        [where self = "researcher_with 2 (steady_model [''q''])" and evs = "[]"
           and subquery = "''topic''"
           and st = "\<lparr>all_reports = [accepted_page], knowledge_gaps = [],
                       search_history = [''q''], loop_count = 1\<rparr>"
           and tc = "queries_call [''q'']" and rest = "[]"
           and args = "no_args\<lparr>arg_queries := Some [''q'']\<rparr>" and qs = "[''q'']"
           and c = "Next \<lparr>all_reports = [accepted_page, accepted_page], knowledge_gaps = [],
                          search_history = [''q'', ''q''], loop_count = 2\<rparr>"
           and ?evs1.0 = "[Chat (GenerateQueries ''topic'' [] [''q'']),
                          GoogleSearch ''q'', Crawl ''http://a'',
                          Chat (AnalyzeRelevance ''topic'' ''http://a'' ''page''),
                          Chat (AssessSufficiency ''topic'' [''i'', ''i''])]"
           and lc = 0]
    by simp
qed

section \<open>Termination and the iteration bound\<close>

text \<open>
  C4: \<open>research_loop\<close> is a total function, its termination is proved above with the
  measure \<open>max_loops - loop_count\<close>, whatever the collaborators answer. A run of
  \<^verbatim>\<open>_research_subcomponent\<close> from \<^verbatim>\<open>loop_count = 0\<close> starts at most \<^verbatim>\<open>max_loops\<close> passes
  through the loop body (none when the bound is not positive), and the counter it
  returns does not exceed the bound.
\<close>

theorem iterations_bounded_by_max_loops:
  assumes "research_subcomponent self evs subquery 0 = (res, evs')"
  shows "\<exists>new. evs' = evs @ new \<and>
           int (iterations new) \<le> max 0 (max_loops self) \<and>
           (\<forall>r. res = Inr r \<longrightarrow> result_loop_count r \<le> max 0 (max_loops self))"
proof -
  obtain lr where
    loop: "research_loop self subquery
             \<lparr>all_reports = [], knowledge_gaps = [], search_history = [], loop_count = 0\<rparr> evs
           = (lr, evs')"
    and res: "\<forall>r. res = Inr r \<longrightarrow> (\<exists>st. lr = Inr st \<and> result_loop_count r = loop_count st)"
    using assms by (auto simp: research_subcomponent_def split: prod.splits sum.splits)
  from research_loop_summary[OF loop] obtain new where
    "evs' = evs @ new" "int (iterations new) \<le> max 0 (max_loops self - 0)"
    "\<forall>st. lr = Inr st \<longrightarrow> loop_count st \<le> max 0 (max_loops self)"
    by auto
  with res show ?thesis by (intro exI[of _ new]) auto
qed

theorem iterations_bounded_by_max_loops_witness:
  "research_subcomponent (researcher_with 2 (steady_model [''q''])) [] ''topic'' 0 =
     (Inr \<lparr>result_subquery = ''topic'', result_reports = [accepted_page, accepted_page],
           result_loop_count = 2, result_search_queries_used = [''q'', ''q'']\<rparr>,
      [Chat (GenerateQueries ''topic'' [] []),
       GoogleSearch ''q'', Crawl ''http://a'',
       Chat (AnalyzeRelevance ''topic'' ''http://a'' ''page''),
       Chat (AssessSufficiency ''topic'' [''i'']),
       Chat (GenerateQueries ''topic'' [] [''q'']),
       GoogleSearch ''q'', Crawl ''http://a'',
       Chat (AnalyzeRelevance ''topic'' ''http://a'' ''page''),
       Chat (AssessSufficiency ''topic'' [''i'', ''i''])])
   \<and> iterations
       [Chat (GenerateQueries ''topic'' [] []),
        GoogleSearch ''q'', Crawl ''http://a'',
        Chat (AnalyzeRelevance ''topic'' ''http://a'' ''page''),
        Chat (AssessSufficiency ''topic'' [''i'']),
        Chat (GenerateQueries ''topic'' [] [''q'']),
        GoogleSearch ''q'', Crawl ''http://a'',
        Chat (AnalyzeRelevance ''topic'' ''http://a'' ''page''),
        Chat (AssessSufficiency ''topic'' [''i'', ''i''])] = 2
   \<and> max_loops (researcher_with 2 (steady_model [''q''])) = 2"
  using run_repeated_query iterations_bounded_by_max_loops [OF run_repeated_query]
  by (simp add: iterations_def researcher_with_def)

section \<open>Responses without queries, failing calls\<close>

text \<open>
  C5, as stated: when query generation yields no query, the loop ends at once, without
  search, fetch or assessment. With a \<^verbatim>\<open>generate_search_queries\<close> call that carries an
  empty list, the sufficiency assessment is still called and the pass is counted.
\<close>

theorem empty_query_list_is_assessed:
  "research_subcomponent (researcher_with 1 (steady_model [])) [] ''topic'' 0 =
     (Inr \<lparr>result_subquery = ''topic'', result_reports = [],
           result_loop_count = 1, result_search_queries_used = []\<rparr>,
      [Chat (GenerateQueries ''topic'' [] []), Chat (AssessSufficiency ''topic'' [])])"
  using run_no_queries by simp

text \<open>
  C5, amended: when the query-generation response has no tool call, or its first tool
  call is not \<^verbatim>\<open>generate_search_queries\<close>, the loop ends at once with the state it had: the
  generation call is the only event of that pass. When the tool call carries no query
  (key absent, or an empty list), nothing is searched or crawled, but the sufficiency
  assessment is called on the evidence so far. The returned dict has no termination
  reason.
\<close>

theorem generation_without_queries:
  assumes "loop_count st < max_loops self"
    and "chat_tools self evs
           (GenerateQueries subquery (knowledge_gaps st) (search_history st)) = Inr tcs"
  shows "(tcs = [] \<or> fn_name (hd tcs) \<noteq> ''generate_search_queries'' \<longrightarrow>
            research_loop self subquery st evs =
              (Inr st,
               evs @ [Chat (GenerateQueries subquery (knowledge_gaps st) (search_history st))]))
       \<and> (tcs = tc # rest \<and> fn_name tc = ''generate_search_queries'' \<and>
          fn_arguments tc = Some args \<and>
          (arg_queries args = None \<or> arg_queries args = Some []) \<longrightarrow>
            (\<exists>r. loop_body self subquery st evs =
               (r, evs @ [Chat (GenerateQueries subquery (knowledge_gaps st)
                                 (search_history st)),
                          Chat (AssessSufficiency subquery
                                 (map relevant_info (all_reports st)))])))"
proof (intro conjI impI)
  assume "tcs = [] \<or> fn_name (hd tcs) \<noteq> ''generate_search_queries''"
  with assms(2) have
    "loop_body self subquery st evs =
       (Inr (Break st),
        evs @ [Chat (GenerateQueries subquery (knowledge_gaps st) (search_history st))])"
    by (auto simp: loop_body_def call_openai_with_tools_def split: list.splits)
  with assms(1) show
    "research_loop self subquery st evs =
       (Inr st, evs @ [Chat (GenerateQueries subquery (knowledge_gaps st) (search_history st))])"
    by (simp add: research_loop.simps)
next
  assume "tcs = tc # rest \<and> fn_name tc = ''generate_search_queries'' \<and>
          fn_arguments tc = Some args \<and>
          (arg_queries args = None \<or> arg_queries args = Some [])"
  with assms(2) show
    "\<exists>r. loop_body self subquery st evs =
       (r, evs @ [Chat (GenerateQueries subquery (knowledge_gaps st) (search_history st)),
                  Chat (AssessSufficiency subquery (map relevant_info (all_reports st)))])"
    by (auto simp: loop_body_def call_openai_with_tools_def Let_def
        split: sum.splits list.splits option.splits)
qed

theorem generation_without_queries_witness:
  "loop_count initial_state < max_loops (researcher_with 1 silent_model)
   \<and> chat_tools (researcher_with 1 silent_model) [] (GenerateQueries ''topic'' [] []) = Inr []
   \<and> research_loop (researcher_with 1 silent_model) ''topic'' initial_state [] =
       (Inr initial_state, [Chat (GenerateQueries ''topic'' [] [])])
   \<and> chat_tools (researcher_with 1 (steady_model [])) [] (GenerateQueries ''topic'' [] [])
       = Inr [queries_call []]
   \<and> (\<exists>r. loop_body (researcher_with 1 (steady_model [])) ''topic'' initial_state [] =
         (r, [Chat (GenerateQueries ''topic'' [] []), Chat (AssessSufficiency ''topic'' [])]))"
proof -
  have l1: "loop_count initial_state < max_loops (researcher_with 1 silent_model)"
    by (simp add: researcher_defs)
  have g1: "chat_tools (researcher_with 1 silent_model) []
              (GenerateQueries ''topic'' (knowledge_gaps initial_state)
                 (search_history initial_state)) = Inr []"
    by (simp add: researcher_defs)
  have l2: "loop_count initial_state < max_loops (researcher_with 1 (steady_model []))"
    by (simp add: researcher_defs)
  have g2: "chat_tools (researcher_with 1 (steady_model [])) []
              (GenerateQueries ''topic'' (knowledge_gaps initial_state)
                 (search_history initial_state)) = Inr [queries_call []]"
    by (simp add: researcher_defs)
  have "research_loop (researcher_with 1 silent_model) ''topic'' initial_state [] =
          (Inr initial_state,
           [] @ [Chat (GenerateQueries ''topic'' (knowledge_gaps initial_state)
                         (search_history initial_state))])"
    using generation_without_queries [OF l1 g1] by simp
  moreover have
    "\<exists>r. loop_body (researcher_with 1 (steady_model [])) ''topic'' initial_state [] =
       (r, [] @ [Chat (GenerateQueries ''topic'' (knowledge_gaps initial_state)
                        (search_history initial_state)),
                 Chat (AssessSufficiency ''topic''
                        (map relevant_info (all_reports initial_state)))])"
    using generation_without_queries [OF l2 g2, where tc = "queries_call []" and rest = "[]"
        and args = "no_args\<lparr>arg_queries := Some []\<rparr>"]
    by (simp add: queries_call_def)
  ultimately show ?thesis
    using l1 g1 g2 by (simp add: initial_state_def)
qed

text \<open>
  C9, as stated: an exception of the query-generation or sufficiency-assessment call is
  caught in the loop and the subcomponent still returns its evidence. Nothing in
  \<^verbatim>\<open>_research_subcomponent\<close> catches exceptions: with a model whose calls raise, the run
  ends with the exception.
\<close>

theorem model_exception_leaves_the_loop:
  "research_subcomponent (researcher_with 1 failing_model) [] ''topic'' 0 =
     (Inl APIError, [Chat (GenerateQueries ''topic'' [] [])])"
  using run_failing_model by simp

text \<open>
  C9, amended: an exception raised by the query-generation call or by the
  sufficiency-assessment call propagates out of the loop, and the evidence collected so
  far is not returned. Only a response without the expected tool call is absence of
  signal; for the assessment that means the pass ends as insufficient: the counter
  advances, the knowledge gaps stay, and the evidence is kept.
\<close>

theorem model_failures_in_the_loop:
  assumes "loop_count st < max_loops self"
  shows "(chat_tools self evs
            (GenerateQueries subquery (knowledge_gaps st) (search_history st)) = Inl e \<longrightarrow>
            research_loop self subquery st evs =
              (Inl e,
               evs @ [Chat (GenerateQueries subquery (knowledge_gaps st) (search_history st))]))
       \<and> (chat_tools self evs
            (GenerateQueries subquery (knowledge_gaps st) (search_history st))
            = Inr (tc # rest) \<and>
          fn_name tc = ''generate_search_queries'' \<and>
          fn_arguments tc = Some args \<and>
          qs = (case arg_queries args of None \<Rightarrow> [] | Some q \<Rightarrow> q) \<and>
          search_loop self subquery qs (all_reports st)
            (evs @ [Chat (GenerateQueries subquery (knowledge_gaps st) (search_history st))])
            = (Inr reports, evs2) \<longrightarrow>
            (chat_tools self evs2 (AssessSufficiency subquery (map relevant_info reports))
               = Inl e' \<longrightarrow>
               research_loop self subquery st evs =
                 (Inl e', evs2 @ [Chat (AssessSufficiency subquery (map relevant_info reports))]))
            \<and> (chat_tools self evs2
                 (AssessSufficiency subquery (map relevant_info reports)) = Inr tcs \<and>
               (tcs = [] \<or> fn_name (hd tcs) \<noteq> ''create_final_report'') \<longrightarrow>
                 loop_body self subquery st evs =
                   (Inr (Next (st\<lparr>search_history := search_history st @ qs,
                                   all_reports := reports,
                                   loop_count := loop_count st + 1\<rparr>)),
                    evs2 @ [Chat (AssessSufficiency subquery (map relevant_info reports))])))"
proof (intro conjI impI)
  assume "chat_tools self evs
            (GenerateQueries subquery (knowledge_gaps st) (search_history st)) = Inl e"
  then have "loop_body self subquery st evs =
       (Inl e, evs @ [Chat (GenerateQueries subquery (knowledge_gaps st) (search_history st))])"
    by (simp add: loop_body_def call_openai_with_tools_def)
  with assms show "research_loop self subquery st evs =
       (Inl e, evs @ [Chat (GenerateQueries subquery (knowledge_gaps st) (search_history st))])"
    by (simp add: research_loop.simps)
next
  assume gen: "chat_tools self evs
              (GenerateQueries subquery (knowledge_gaps st) (search_history st))
              = Inr (tc # rest) \<and>
            fn_name tc = ''generate_search_queries'' \<and>
            fn_arguments tc = Some args \<and>
            qs = (case arg_queries args of None \<Rightarrow> [] | Some q \<Rightarrow> q) \<and>
            search_loop self subquery qs (all_reports st)
              (evs @ [Chat (GenerateQueries subquery (knowledge_gaps st) (search_history st))])
              = (Inr reports, evs2)"
    and ask: "chat_tools self evs2 (AssessSufficiency subquery (map relevant_info reports))
                = Inl e'"
  from gen have g: "chat_tools self evs
              (GenerateQueries subquery (knowledge_gaps st) (search_history st))
              = Inr (tc # rest)"
    and n: "fn_name tc = ''generate_search_queries''"
    and a: "fn_arguments tc = Some args"
    and s: "search_loop self subquery
              (case arg_queries args of None \<Rightarrow> [] | Some q \<Rightarrow> q) (all_reports st)
              (evs @ [Chat (GenerateQueries subquery (knowledge_gaps st) (search_history st))])
              = (Inr reports, evs2)"
    by auto
  from g n a s ask have "loop_body self subquery st evs =
       (Inl e', evs2 @ [Chat (AssessSufficiency subquery (map relevant_info reports))])"
    by (simp add: loop_body_def call_openai_with_tools_def Let_def)
  with assms show "research_loop self subquery st evs =
       (Inl e', evs2 @ [Chat (AssessSufficiency subquery (map relevant_info reports))])"
    by (simp add: research_loop.simps)
next
  assume gen: "chat_tools self evs
              (GenerateQueries subquery (knowledge_gaps st) (search_history st))
              = Inr (tc # rest) \<and>
            fn_name tc = ''generate_search_queries'' \<and>
            fn_arguments tc = Some args \<and>
            qs = (case arg_queries args of None \<Rightarrow> [] | Some q \<Rightarrow> q) \<and>
            search_loop self subquery qs (all_reports st)
              (evs @ [Chat (GenerateQueries subquery (knowledge_gaps st) (search_history st))])
              = (Inr reports, evs2)"
    and ask: "chat_tools self evs2 (AssessSufficiency subquery (map relevant_info reports))
                = Inr tcs \<and>
              (tcs = [] \<or> fn_name (hd tcs) \<noteq> ''create_final_report'')"
  from gen have g: "chat_tools self evs
              (GenerateQueries subquery (knowledge_gaps st) (search_history st))
              = Inr (tc # rest)"
    and n: "fn_name tc = ''generate_search_queries''"
    and a: "fn_arguments tc = Some args"
    and q: "(case arg_queries args of None \<Rightarrow> [] | Some q \<Rightarrow> q) = qs"
    and s: "search_loop self subquery
              (case arg_queries args of None \<Rightarrow> [] | Some q \<Rightarrow> q) (all_reports st)
              (evs @ [Chat (GenerateQueries subquery (knowledge_gaps st) (search_history st))])
              = (Inr reports, evs2)"
    by auto
  from ask have c: "chat_tools self evs2
                      (AssessSufficiency subquery (map relevant_info reports)) = Inr tcs"
    and t: "tcs = [] \<or> fn_name (hd tcs) \<noteq> ''create_final_report''"
    by simp_all
  from g n a s c t have "loop_body self subquery st evs =
       (Inr (Next (st\<lparr>search_history := search_history st @
                          (case arg_queries args of None \<Rightarrow> [] | Some q \<Rightarrow> q),
                       all_reports := reports,
                       loop_count := loop_count st + 1\<rparr>)),
        evs2 @ [Chat (AssessSufficiency subquery (map relevant_info reports))])"
    by (auto simp: loop_body_def call_openai_with_tools_def Let_def
        split: list.splits)
  then show "loop_body self subquery st evs =
       (Inr (Next (st\<lparr>search_history := search_history st @ qs,
                       all_reports := reports,
                       loop_count := loop_count st + 1\<rparr>)),
        evs2 @ [Chat (AssessSufficiency subquery (map relevant_info reports))])"
    by (simp only: q)
qed

theorem model_failures_in_the_loop_witness:
  "research_loop (researcher_with 1 failing_model) ''topic'' initial_state [] =
     (Inl APIError, [Chat (GenerateQueries ''topic'' [] [])])
   \<and> research_loop (researcher_with 1 fragile_model) ''topic'' initial_state [] =
       (Inl APIError,
        [Chat (GenerateQueries ''topic'' [] []), GoogleSearch ''q'', Crawl ''http://a'',
         Chat (AnalyzeRelevance ''topic'' ''http://a'' ''page''),
         Chat (AssessSufficiency ''topic'' [''i''])])
   \<and> loop_body (researcher_with 1 (steady_model [''q''])) ''topic'' initial_state [] =
       (Inr (Next \<lparr>all_reports = [accepted_page], knowledge_gaps = [],
                   search_history = [''q''], loop_count = 1\<rparr>),
        [Chat (GenerateQueries ''topic'' [] []), GoogleSearch ''q'', Crawl ''http://a'',
         Chat (AnalyzeRelevance ''topic'' ''http://a'' ''page''),
         Chat (AssessSufficiency ''topic'' [''i''])])"
proof -
  have l1: "loop_count initial_state < max_loops (researcher_with 1 failing_model)"
    and l2: "loop_count initial_state < max_loops (researcher_with 1 fragile_model)"
    and l3: "loop_count initial_state < max_loops (researcher_with 1 (steady_model [''q'']))"
    by (simp_all add: researcher_defs)
  have s2: "search_loop (researcher_with 1 fragile_model) ''topic'' [''q''] []
              [Chat (GenerateQueries ''topic'' [] [])] =
            (Inr [accepted_page],
             [Chat (GenerateQueries ''topic'' [] []), GoogleSearch ''q'', Crawl ''http://a'',
              Chat (AnalyzeRelevance ''topic'' ''http://a'' ''page'')])"
    by (simp add: run_defs researcher_defs)
  have s3: "search_loop (researcher_with 1 (steady_model [''q''])) ''topic'' [''q''] []
              [Chat (GenerateQueries ''topic'' [] [])] =
            (Inr [accepted_page],
             [Chat (GenerateQueries ''topic'' [] []), GoogleSearch ''q'', Crawl ''http://a'',
              Chat (AnalyzeRelevance ''topic'' ''http://a'' ''page'')])"
    by (simp add: run_defs researcher_defs)
  have w1: "research_loop (researcher_with 1 failing_model) ''topic'' initial_state [] =
              (Inl APIError, [Chat (GenerateQueries ''topic'' [] [])])"
    using model_failures_in_the_loop [OF l1, where evs = "[]" and subquery = "''topic''"
        and e = APIError]
    by (simp add: researcher_defs)
  have w2: "research_loop (researcher_with 1 fragile_model) ''topic'' initial_state [] =
       (Inl APIError,
        [Chat (GenerateQueries ''topic'' [] []), GoogleSearch ''q'', Crawl ''http://a'',
         Chat (AnalyzeRelevance ''topic'' ''http://a'' ''page''),
         Chat (AssessSufficiency ''topic'' [''i''])])"
    using s2 model_failures_in_the_loop [OF l2, where evs = "[]" and subquery = "''topic''"
        and tc = "queries_call [''q'']" and rest = "[]"
        and args = "no_args\<lparr>arg_queries := Some [''q'']\<rparr>" and qs = "[''q'']"
        and reports = "[accepted_page]"
        and ?evs2.0 = "[Chat (GenerateQueries ''topic'' [] []), GoogleSearch ''q'',
                       Crawl ''http://a'',
                       Chat (AnalyzeRelevance ''topic'' ''http://a'' ''page'')]"
        and e' = APIError]
    by (simp add: researcher_defs)
  have w3: "loop_body (researcher_with 1 (steady_model [''q''])) ''topic'' initial_state [] =
       (Inr (Next \<lparr>all_reports = [accepted_page], knowledge_gaps = [],
                   search_history = [''q''], loop_count = 1\<rparr>),
        [Chat (GenerateQueries ''topic'' [] []), GoogleSearch ''q'', Crawl ''http://a'',
         Chat (AnalyzeRelevance ''topic'' ''http://a'' ''page''),
         Chat (AssessSufficiency ''topic'' [''i''])])"
    using s3 model_failures_in_the_loop [OF l3, where evs = "[]" and subquery = "''topic''"
        and tc = "queries_call [''q'']" and rest = "[]"
        and args = "no_args\<lparr>arg_queries := Some [''q'']\<rparr>" and qs = "[''q'']"
        and reports = "[accepted_page]"
        and ?evs2.0 = "[Chat (GenerateQueries ''topic'' [] []), GoogleSearch ''q'',
                       Crawl ''http://a'',
                       Chat (AnalyzeRelevance ''topic'' ''http://a'' ''page'')]"
        and tcs = "[]"]
    by (simp add: researcher_defs)
  from w1 w2 w3 show ?thesis by simp
qed

section \<open>Pages the model does not score\<close>

text \<open>
  C10: when the scoring response has no tool call, or its first tool call is not
  \<^verbatim>\<open>analyze_website_relevance\<close>, \<^verbatim>\<open>_analyze_website_content\<close> returns the default report with
  score 0 and empty summary and information, and the page loop goes on to the next URL
  with the accepted evidence unchanged, since 0 is not above 0.3.
\<close>

theorem unscored_page_is_rejected:
  assumes "chat_tools self (evs @ [Crawl u])
             (AnalyzeRelevance subquery u (take 10000 page)) = Inr tcs"
    and "tcs = [] \<or> fn_name (hd tcs) \<noteq> ''analyze_website_relevance''"
  shows "analyze_website_content self (evs @ [Crawl u]) u page subquery =
           (Inr \<lparr>url = u, content = page, relevance_score = 0, summary = [],
                 relevant_info = []\<rparr>,
            evs @ [Crawl u, Chat (AnalyzeRelevance subquery u (take 10000 page))])
       \<and> \<not> (0 :: real) > 0.3
       \<and> (crawler_arun self evs u = Inr (Some page) \<and> page \<noteq> [] \<longrightarrow>
            crawl_urls self subquery (u # urls) accepted evs =
              crawl_urls self subquery urls accepted
                (evs @ [Crawl u, Chat (AnalyzeRelevance subquery u (take 10000 page))]))"
proof -
  have a: "analyze_website_content self (evs @ [Crawl u]) u page subquery =
           (Inr \<lparr>url = u, content = page, relevance_score = 0, summary = [],
                 relevant_info = []\<rparr>,
            evs @ [Crawl u, Chat (AnalyzeRelevance subquery u (take 10000 page))])"
    using assms
    by (auto simp: analyze_website_content_def call_openai_with_tools_def split: list.splits)
  then show ?thesis
    by (simp add: crawl_website_def threshold_def)
qed

theorem unscored_page_is_rejected_witness:
  "chat_tools (researcher_with 1 silent_model) ([] @ [Crawl ''http://a''])
     (AnalyzeRelevance ''topic'' ''http://a'' (take 10000 ''page'')) = Inr []
   \<and> analyze_website_content (researcher_with 1 silent_model) [Crawl ''http://a'']
       ''http://a'' ''page'' ''topic'' =
       (Inr \<lparr>url = ''http://a'', content = ''page'', relevance_score = 0, summary = [],
             relevant_info = []\<rparr>,
        [Crawl ''http://a'', Chat (AnalyzeRelevance ''topic'' ''http://a'' ''page'')])
   \<and> crawl_urls (researcher_with 1 silent_model) ''topic'' [''http://a''] [accepted_page] [] =
       (Inr [accepted_page],
        [Crawl ''http://a'', Chat (AnalyzeRelevance ''topic'' ''http://a'' ''page'')])"
proof -
  have c: "chat_tools (researcher_with 1 silent_model) ([] @ [Crawl ''http://a''])
             (AnalyzeRelevance ''topic'' ''http://a'' (take 10000 ''page'')) = Inr []"
    by (simp add: researcher_defs)
  have d: "[] = [] \<or> fn_name (hd []) \<noteq> ''analyze_website_relevance''"
    by simp
  have p: "crawler_arun (researcher_with 1 silent_model) [] ''http://a'' = Inr (Some ''page'')"
    by (simp add: researcher_defs)
  show ?thesis
    using c p unscored_page_is_rejected [OF c d, of "[]" "[accepted_page]"]
    by simp
qed

section \<open>Dictionaries and the sections of the report\<close>

lemma remdups_snoc: "remdups (ys @ [x]) = removeAll x (remdups ys) @ [x]"
  by (induction ys) auto

lemma first_occurrences_Cons:
  "rev (remdups (rev (x # xs))) = x # removeAll x (rev (remdups (rev xs)))"
  by (simp add: remdups_snoc removeAll_filter_not_eq rev_filter)

lemma filter_removeAll_absorb:
  "\<not> P x \<Longrightarrow> filter P (removeAll x ys) = filter P ys"
  by (induction ys) auto

lemma dict_set_keys:
  "map fst (dict_set d k v) = (if k \<in> set (map fst d) then map fst d else map fst d @ [k])"
  by (induction d) (force split: if_splits)+

lemma dict_set_entries:
  "distinct (map fst d) \<Longrightarrow> set (dict_set d k v) = insert (k, v) {p \<in> set d. fst p \<noteq> k}"
  by (induction d) (force split: if_splits)+

lemma dict_set_distinct:
  "distinct (map fst d) \<Longrightarrow> distinct (map fst (dict_set d k v))"
  by (simp add: dict_set_keys)

text \<open>
  The two dicts of \<^verbatim>\<open>research\<close> always have the same keys, in the order of first
  occurrence in \<^verbatim>\<open>subcomponents\<close>, and a subcomponent without findings has the
  placeholder section.
\<close>

lemma research_each_summary:
  "research_each self subs f s evs = (Inr (f', s'), evs') \<Longrightarrow>
   map fst f = map fst s \<Longrightarrow> distinct (map fst f) \<Longrightarrow>
   (\<forall>k. (k, []) \<in> set f \<longrightarrow> (k, no_information) \<in> set s) \<Longrightarrow>
     map fst f' = map fst s' \<and> distinct (map fst f') \<and>
     (\<forall>k. (k, []) \<in> set f' \<longrightarrow> (k, no_information) \<in> set s') \<and>
     map fst f' =
       map fst f @ filter (\<lambda>k. k \<notin> set (map fst f)) (rev (remdups (rev subs)))"
proof (induction subs arbitrary: f s evs)
  case Nil
  then show ?case by simp
next
  case (Cons sub rest)
  obtain rr evs1 where rs: "research_subcomponent self evs sub 0 = (rr, evs1)"
    by (cases "research_subcomponent self evs sub 0")
  with Cons.prems(1) obtain result where rr: "rr = Inr result"
    by (cases rr) auto
  define f1 where "f1 = dict_set f sub (result_reports result)"
  obtain body evs2 where
    step: "research_each self rest f1 (dict_set s sub body) evs2 = (Inr (f', s'), evs')"
    and body: "result_reports result = [] \<longrightarrow> body = no_information"
    using Cons.prems(1) rs rr
    by (auto simp: f1_def Let_def split: prod.splits if_splits)
  define s1 where "s1 = dict_set s sub body"
  have keys1: "map fst f1 = map fst s1"
    using Cons.prems(2) by (simp add: f1_def s1_def dict_set_keys)
  have dist1: "distinct (map fst f1)"
    using Cons.prems(3) by (simp add: f1_def dict_set_distinct)
  have dists: "distinct (map fst s)"
    using Cons.prems(2,3) by simp
  have empty1: "\<forall>k. (k, []) \<in> set f1 \<longrightarrow> (k, no_information) \<in> set s1"
    using Cons.prems(3,4) dists body
    by (auto simp: f1_def s1_def dict_set_entries)
  from Cons.IH[OF step[folded s1_def] keys1 dist1 empty1]
  have ih: "map fst f' = map fst s'" "distinct (map fst f')"
    "\<forall>k. (k, []) \<in> set f' \<longrightarrow> (k, no_information) \<in> set s'"
    "map fst f' = map fst f1 @ filter (\<lambda>k. k \<notin> set (map fst f1)) (rev (remdups (rev rest)))"
    by blast+
  have "map fst f1 @ filter (\<lambda>k. k \<notin> set (map fst f1)) (rev (remdups (rev rest)))
        = map fst f @ filter (\<lambda>k. k \<notin> set (map fst f)) (rev (remdups (rev (sub # rest))))"
  proof (cases "sub \<in> set (map fst f)")
    case True
    then have "map fst f1 = map fst f" by (simp add: f1_def dict_set_keys)
    with True show ?thesis
      by (simp only: first_occurrences_Cons) (simp add: filter_removeAll_absorb)
  next
    case False
    then have "map fst f1 = map fst f @ [sub]" by (simp add: f1_def dict_set_keys)
    with False show ?thesis
      by (simp only: first_occurrences_Cons)
        (auto simp: removeAll_filter_not_eq intro: filter_cong)
  qed
  with ih show ?case by simp
qed

lemma research_each_from_empty:
  assumes "research_each self subs [] [] evs = (Inr (f, s), evs')"
  shows "map fst f = rev (remdups (rev subs))"
    and "map fst s = rev (remdups (rev subs))"
    and "distinct (map fst f)"
    and "\<forall>k. (k, []) \<in> set f \<longrightarrow> (k, no_information) \<in> set s"
  using research_each_summary[OF assms] by auto





text \<open>What a returned report is made of.\<close>

lemma research_returns:
  assumes "research self evs q = (Inr r, evs')"
  shows "\<exists>subs evs1 f s evs2 executive_summary conclusion.
           decompose_query self evs q = (Inr subs, evs1) \<and>
           research_each self subs [] [] evs1 = (Inr (f, s), evs2) \<and>
           query r = q \<and> subcomponents r = subs \<and> findings r = f \<and>
           final_report r = final_report_text executive_summary s conclusion \<and>
           sources r = remdups (concat (map (\<lambda>(k, v). map url v) f))"
  using assms
  by (auto simp: research_def Let_def split: prod.splits sum.splits) blast+



section \<open>Concrete runs of the orchestrator\<close>

lemmas research_defs =
  research_def decompose_query_def generate_subcomponent_report_def
  generate_executive_summary_def generate_conclusion_def save_report_def str_nat.simps


lemma run_undecomposed_research:
  "fst (research (researcher_with 1 (steady_model [''q''])) [] ''topic'') =
     Inr \<lparr>query = ''topic'', subcomponents = [''topic''],
          findings = [(''topic'', [accepted_page])],
          final_report =
            final_report_text (''## Executive Summary'' @ NL @ NL @ ''text'' @ NL)
              [(''topic'', ''text'')]
              (NL @ ''## Conclusion'' @ NL @ NL @ ''text'' @ NL),
          timestamp = ''t'', sources = [''http://a'']\<rparr>"
  by (simp add: research_defs run_defs researcher_defs final_report_text_def
      section_parts_def no_information_def)

lemma run_failing_research:
  "research (researcher_with 1 failing_model) [] ''topic'' =
     (Inl APIError, [Chat (DecomposeQuery ''topic'')])"
  by (simp add: research_defs run_defs researcher_defs)

section \<open>Decomposition\<close>

text \<open>
  C6, as stated: a failing decomposition call never aborts the run, research goes on with
  \<^verbatim>\<open>[query]\<close>. The call is not guarded in \<^verbatim>\<open>research\<close>: when it raises, the run ends with
  the exception before any subcomponent is researched.
\<close>

theorem decomposition_exception_aborts:
  "research (researcher_with 1 failing_model) [] ''topic'' =
     (Inl APIError, [Chat (DecomposeQuery ''topic'')])"
  using run_failing_research by simp

text \<open>
  C6, amended: when the decomposition response has no tool call, a first tool call that
  is not \<^verbatim>\<open>decompose_query\<close>, or \<^verbatim>\<open>decompose_query\<close> arguments without the key
  \<^verbatim>\<open>subcomponents\<close>, research proceeds with the single subcomponent \<^verbatim>\<open>[query]\<close>: a report
  that is returned has \<^verbatim>\<open>[query]\<close> as its subcomponents and as the keys of its findings.
  An exception raised by the decomposition call propagates out of \<^verbatim>\<open>research\<close>.
\<close>

theorem decomposition_fallback:
  "(chat_tools self evs (DecomposeQuery q) = Inr tcs \<and>
    (tcs = [] \<or> fn_name (hd tcs) \<noteq> ''decompose_query'' \<or>
     fn_arguments (hd tcs) = Some args \<and> arg_subcomponents args = None) \<longrightarrow>
      decompose_query self evs q = (Inr [q], evs @ [Chat (DecomposeQuery q)]) \<and>
      (research self evs q = (Inr r, evs') \<longrightarrow>
         subcomponents r = [q] \<and> map fst (findings r) = [q]))
   \<and> (chat_tools self evs (DecomposeQuery q) = Inl e \<longrightarrow>
         research self evs q = (Inl e, evs @ [Chat (DecomposeQuery q)]))"
proof (intro conjI impI)
  assume a: "chat_tools self evs (DecomposeQuery q) = Inr tcs \<and>
    (tcs = [] \<or> fn_name (hd tcs) \<noteq> ''decompose_query'' \<or>
     fn_arguments (hd tcs) = Some args \<and> arg_subcomponents args = None)"
  then show d: "decompose_query self evs q = (Inr [q], evs @ [Chat (DecomposeQuery q)])"
    by (auto simp: decompose_query_def call_openai_with_tools_def split: list.splits)
  assume "research self evs q = (Inr r, evs')"
  from research_returns[OF this] d obtain f s evs2 where
    each: "research_each self [q] [] [] (evs @ [Chat (DecomposeQuery q)]) = (Inr (f, s), evs2)"
    and r: "subcomponents r = [q]" "findings r = f"
    by auto
  from research_each_from_empty(1)[OF each] have "map fst f = [q]" by simp
  with r show "subcomponents r = [q]" "map fst (findings r) = [q]" by simp_all
next
  assume "chat_tools self evs (DecomposeQuery q) = Inl e"
  then show "research self evs q = (Inl e, evs @ [Chat (DecomposeQuery q)])"
    by (simp add: research_def decompose_query_def call_openai_with_tools_def)
qed

theorem decomposition_fallback_witness:
  "chat_tools (researcher_with 1 (steady_model [''q''])) [] (DecomposeQuery ''topic'') = Inr []
   \<and> decompose_query (researcher_with 1 (steady_model [''q''])) [] ''topic'' =
       (Inr [''topic''], [Chat (DecomposeQuery ''topic'')])
   \<and> subcomponents
       \<lparr>query = ''topic'', subcomponents = [''topic''],
        findings = [(''topic'', [accepted_page])],
        final_report =
          final_report_text (''## Executive Summary'' @ NL @ NL @ ''text'' @ NL)
            [(''topic'', ''text'')]
            (NL @ ''## Conclusion'' @ NL @ NL @ ''text'' @ NL),
        timestamp = ''t'', sources = [''http://a'']\<rparr> = [''topic'']
   \<and> chat_tools (researcher_with 1 failing_model) [] (DecomposeQuery ''topic'') = Inl APIError
   \<and> research (researcher_with 1 failing_model) [] ''topic'' =
       (Inl APIError, [Chat (DecomposeQuery ''topic'')])"
proof -
  have c1: "chat_tools (researcher_with 1 (steady_model [''q''])) [] (DecomposeQuery ''topic'')
              = Inr []"
    and c2: "chat_tools (researcher_with 1 failing_model) [] (DecomposeQuery ''topic'')
              = Inl APIError"
    by (simp_all add: researcher_defs)
  have run: "research (researcher_with 1 (steady_model [''q''])) [] ''topic'' =
      (Inr \<lparr>query = ''topic'', subcomponents = [''topic''],
        findings = [(''topic'', [accepted_page])],
        final_report =
          final_report_text (''## Executive Summary'' @ NL @ NL @ ''text'' @ NL)
            [(''topic'', ''text'')]
            (NL @ ''## Conclusion'' @ NL @ NL @ ''text'' @ NL),
        timestamp = ''t'', sources = [''http://a'']\<rparr>,
       snd (research (researcher_with 1 (steady_model [''q''])) [] ''topic''))"
    using run_undecomposed_research by (simp add: prod_eq_iff)
  show ?thesis
    using c1 c2 run
      decomposition_fallback [where self = "researcher_with 1 (steady_model [''q''])"
        and evs = "[]" and q = "''topic''" and tcs = "[]"
        and r = "\<lparr>query = ''topic'', subcomponents = [''topic''],
                   findings = [(''topic'', [accepted_page])],
                   final_report =
                     final_report_text (''## Executive Summary'' @ NL @ NL @ ''text'' @ NL)
                       [(''topic'', ''text'')]
                       (NL @ ''## Conclusion'' @ NL @ NL @ ''text'' @ NL),
                   timestamp = ''t'', sources = [''http://a'']\<rparr>"
        and evs' = "snd (research (researcher_with 1 (steady_model [''q''])) [] ''topic'')"]
      decomposition_fallback [where self = "researcher_with 1 failing_model"
        and evs = "[]" and q = "''topic''" and e = APIError]
    by simp
qed

text \<open>
  A \<^verbatim>\<open>decompose_query\<close> call that carries an empty list is taken as it is: no
  subcomponent is researched.
\<close>

lemma decomposition_empty_list:
  "chat_tools self evs (DecomposeQuery q) =
     Inr (ToolCall ''decompose_query'' (Some (no_args\<lparr>arg_subcomponents := Some []\<rparr>)) # rest)
   \<Longrightarrow> decompose_query self evs q = (Inr [], evs @ [Chat (DecomposeQuery q)])"
  by (simp add: decompose_query_def call_openai_with_tools_def no_args_def)

section \<open>Sources and sections of the report\<close>





end
